theory Spec2Isabelle
  imports Complex_Main "HOL-Library.Log_Nat"
begin

text \<open>
  A model of the plan-purchase service: the credential generator
  (\<^verbatim>\<open>generateUsernameFromEmail\<close>, \<^verbatim>\<open>generatePassword\<close>) and the orchestrator
  \<^verbatim>\<open>purchasePlan\<close> that drives a headless browser through the provider's form. The
  functions are pure; the clock, the random source, the environment variables and the
  behaviour of the browser are parameters.
\<close>

section \<open>Credential generator\<close>

subsection \<open>JavaScript string and number primitives used by the generator\<close>

text \<open>
  A JavaScript string is modelled as a \<open>string\<close>, one \<open>char\<close> per code unit. The
  generator only ever inspects ASCII letters, digits and the character \<open>@\<close>; every other
  code unit is dropped by the cleaning step before anything else looks at it.
\<close>

definition is_lower :: "char \<Rightarrow> bool" where
  "is_lower c \<longleftrightarrow> 97 \<le> (of_char c :: nat) \<and> (of_char c :: nat) \<le> 122"

definition is_upper :: "char \<Rightarrow> bool" where
  "is_upper c \<longleftrightarrow> 65 \<le> (of_char c :: nat) \<and> (of_char c :: nat) \<le> 90"

definition is_digit :: "char \<Rightarrow> bool" where
  "is_digit c \<longleftrightarrow> 48 \<le> (of_char c :: nat) \<and> (of_char c :: nat) \<le> 57"

text \<open>The character class \<^verbatim>\<open>[a-zA-Z0-9]\<close> of the cleaning regular expression.\<close>

definition is_alnum :: "char \<Rightarrow> bool" where
  "is_alnum c \<longleftrightarrow> is_lower c \<or> is_upper c \<or> is_digit c"

text \<open>\<^verbatim>\<open>s.includes(t)\<close>: \<open>t\<close> occurs in \<open>s\<close> as a contiguous run.\<close>

fun str_includes :: "string \<Rightarrow> string \<Rightarrow> bool" where
  "str_includes [] t = (t = [])"
| "str_includes (c # cs) t = (take (length t) (c # cs) = t \<or> str_includes cs t)"

text \<open>\<^verbatim>\<open>email.split("@")[0]\<close>: everything before the first \<open>@\<close>.\<close>

definition split_at_first :: "string \<Rightarrow> string" where
  "split_at_first email = takeWhile (\<lambda>c. c \<noteq> CHR ''@'') email"

text \<open>\<^verbatim>\<open>replace(/[^a-zA-Z0-9]/g, "")\<close>.\<close>

definition remove_non_alnum :: "string \<Rightarrow> string" where
  "remove_non_alnum s = filter is_alnum s"

text \<open>
  \<^verbatim>\<open>toLowerCase\<close> and \<^verbatim>\<open>toUpperCase\<close>, on ASCII letters; the source applies them to
  cleaned prefixes only.
\<close>

definition toLowerCase :: "string \<Rightarrow> string" where
  "toLowerCase s = map (\<lambda>c. if is_upper c then char_of ((of_char c :: nat) + 32) else c) s"

definition toUpperCase :: "string \<Rightarrow> string" where
  "toUpperCase s = map (\<lambda>c. if is_lower c then char_of ((of_char c :: nat) - 32) else c) s"

text \<open>\<^verbatim>\<open>substring(0, n)\<close>.\<close>

definition substring0 :: "nat \<Rightarrow> string \<Rightarrow> string" where
  "substring0 n s = take n s"

definition digit_char :: "nat \<Rightarrow> char" where
  "digit_char d = char_of (48 + d)"

text \<open>\<^verbatim>\<open>Number.prototype.toString\<close> on integers: decimal digits, a leading minus sign.\<close>

fun toString_nat :: "nat \<Rightarrow> string" where
  "toString_nat n =
     (if n < 10 then [digit_char n] else toString_nat (n div 10) @ [digit_char (n mod 10)])"

declare toString_nat.simps [simp del]

definition toString_int :: "int \<Rightarrow> string" where
  "toString_int i = (if i < 0 then CHR ''-'' # toString_nat (nat (- i)) else toString_nat (nat i))"

text \<open>\<^verbatim>\<open>slice(-2)\<close>: the last two code units, or the whole string when it is shorter.\<close>

definition slice_last2 :: "string \<Rightarrow> string" where
  "slice_last2 s = drop (length s - 2) s"

text \<open>\<^verbatim>\<open>padStart(2, "0")\<close>.\<close>

definition padStart2 :: "string \<Rightarrow> string" where
  "padStart2 s = replicate (2 - length s) (CHR ''0'') @ s"

subsection \<open>The clock, thrown values\<close>

text \<open>
  What \<^verbatim>\<open>new Date()\<close> reads from the wall clock, through the five getters the source
  calls. \<open>getMonth\<close> is zero-based, as in JavaScript.
\<close>

record date =
  getFullYear :: int
  getMonth :: nat
  getDate :: nat
  getHours :: nat
  getMinutes :: nat

text \<open>The ranges of the getters for the current time of a running system.\<close>

definition wall_clock :: "date \<Rightarrow> bool" where
  "wall_clock now \<longleftrightarrow>
     10 \<le> getFullYear now \<and> getMonth now < 12 \<and> 1 \<le> getDate now \<and> getDate now \<le> 31 \<and>
     getHours now < 24 \<and> getMinutes now < 60"

text \<open>
  A value that reaches a \<^verbatim>\<open>catch\<close>: an \<^verbatim>\<open>Error\<close> object with its message, or any other
  thrown value.
\<close>

datatype thrown = Error string | NonError

subsection \<open>generateUsernameFromEmail\<close>

definition timestamp :: "date \<Rightarrow> string" where
  "timestamp now =
     slice_last2 (toString_int (getFullYear now)) @
     padStart2 (toString_nat (getMonth now + 1)) @
     padStart2 (toString_nat (getDate now)) @
     padStart2 (toString_nat (getHours now)) @
     padStart2 (toString_nat (getMinutes now))"

definition generateUsernameFromEmail :: "date \<Rightarrow> string \<Rightarrow> thrown + string" where
  "generateUsernameFromEmail now email =
     (if email = [] \<or> \<not> str_includes email ''@'' then Inl (Error ''Invalid email address'')
      else
        let emailPrefix = split_at_first email;
            cleanedPrefix = toLowerCase (remove_non_alnum emailPrefix)
        in if cleanedPrefix = [] then Inl (Error ''Email prefix is invalid after cleaning'')
           else
             let prefixPart = toUpperCase (substring0 6 cleanedPrefix)
             in Inr (prefixPart @ timestamp now))"

subsection \<open>Double-precision numbers\<close>

text \<open>
  \<^verbatim>\<open>Math.random()\<close> returns an IEEE 754 double, and \<^verbatim>\<open>Math.random() * charset.length\<close>
  is a double-precision product, rounded to nearest with ties to even. A finite
  non-negative double is a significand below \<open>2^53\<close> and an exponent from \<open>-1074\<close> to
  \<open>971\<close>; its value is the significand times two to the exponent.
\<close>

datatype double = Double (significand: int) (exponent: int)

definition valof :: "double \<Rightarrow> real" where
  "valof d = of_int (significand d) * power_int 2 (exponent d)"

definition is_double :: "double \<Rightarrow> bool" where
  "is_double d \<longleftrightarrow>
     0 \<le> significand d \<and> significand d < 2 ^ 53 \<and> - 1074 \<le> exponent d \<and> exponent d \<le> 971"

text \<open>
  Rounding of the exact value \<open>n * 2^e\<close> (\<open>n\<close> not negative) to a double: the \<open>k\<close> low
  bits that do not fit 53 bits, or that lie below the least exponent, are dropped; the
  kept part goes up by one when the dropped part is more than half a unit, or exactly
  half and the kept part is odd. A result of \<open>2^1024\<close> or more is \<^verbatim>\<open>Infinity\<close>, here
  \<open>None\<close>.
\<close>

definition round_to_double :: "int \<Rightarrow> int \<Rightarrow> double option" where
  "round_to_double n e =
     (let k = nat (max (bitlen n - 53) (- 1074 - e));
          q = n div 2 ^ k;
          r = n mod 2 ^ k;
          q' = (if 2 ^ k < 2 * r \<or> (2 * r = 2 ^ k \<and> odd q) then q + 1 else q);
          d = Double q' (e + int k)
      in if 2 ^ 1024 \<le> valof d then None else Some d)"

definition double_times :: "double \<Rightarrow> double \<Rightarrow> double option" where
  "double_times a b =
     round_to_double (significand a * significand b) (exponent a + exponent b)"

text \<open>A length as a double; exact below \<open>2^53\<close>.\<close>

definition double_of_nat :: "nat \<Rightarrow> double" where
  "double_of_nat n = Double (int n) 0"

text \<open>\<^verbatim>\<open>Math.floor\<close>; the floor of \<^verbatim>\<open>Infinity\<close> is \<^verbatim>\<open>Infinity\<close>.\<close>

definition Math_floor :: "double option \<Rightarrow> int option" where
  "Math_floor x = map_option (\<lambda>d. \<lfloor>valof d\<rfloor>) x"

subsection \<open>generatePassword\<close>

definition charset :: string where
  "charset = ''abcdefghijklmnopqrstuvwxyz''"

text \<open>
  \<^verbatim>\<open>charset[randomIndex]\<close>; an index outside the string reads \<^verbatim>\<open>undefined\<close>, which
  \<^verbatim>\<open>+=\<close> appends as the text \<^verbatim>\<open>undefined\<close>.
\<close>

definition charset_at :: "int option \<Rightarrow> string" where
  "charset_at randomIndex =
     (case randomIndex of
        None \<Rightarrow> ''undefined''
      | Some k \<Rightarrow>
          if 0 \<le> k \<and> k < int (length charset) then [charset ! nat k] else ''undefined'')"

text \<open>
  The loop of \<^verbatim>\<open>generatePassword\<close>. \<open>rnd i\<close> is the double the \<open>i\<close>-th call of
  \<^verbatim>\<open>Math.random()\<close> returns; iteration \<open>i\<close> makes the \<open>i\<close>-th call.
\<close>

function generatePassword_loop :: "(nat \<Rightarrow> double) \<Rightarrow> int \<Rightarrow> int \<Rightarrow> string \<Rightarrow> string" where
  "generatePassword_loop rnd len i password =
     (if i < len
      then let randomIndex = Math_floor (double_times (rnd (nat i)) (double_of_nat (length charset)))
           in generatePassword_loop rnd len (i + 1) (password @ charset_at randomIndex)
      else password)"
  by pat_completeness auto
termination
  by (relation "measure (\<lambda>(rnd, len, i, password). nat (len - i))") auto

declare generatePassword_loop.simps [simp del]

definition generatePassword :: "(nat \<Rightarrow> double) \<Rightarrow> int \<Rightarrow> string" where
  "generatePassword rnd len = generatePassword_loop rnd len 0 []"

text \<open>The call \<^verbatim>\<open>generatePassword()\<close> with the default \<^verbatim>\<open>length = 8\<close>.\<close>

definition generatePassword_default :: "(nat \<Rightarrow> double) \<Rightarrow> string" where
  "generatePassword_default rnd = generatePassword rnd 8"

text \<open>What \<^verbatim>\<open>Math.random()\<close> promises: every draw is a double in \<open>[0, 1)\<close>.\<close>

definition unit_interval :: "(nat \<Rightarrow> double) \<Rightarrow> bool" where
  "unit_interval rnd \<longleftrightarrow> (\<forall>i. is_double (rnd i) \<and> valof (rnd i) < 1)"

text \<open>
  Example draws: \<open>866076851417403 / 2^52\<close>, whose exact product with 26 lies just below 5
  and rounds to 5, then quarters.
\<close>

definition example_draws :: "nat \<Rightarrow> double" where
  "example_draws i = (if i = 0 then Double 866076851417403 (- 52) else Double (int (i mod 4)) (- 2))"

subsection \<open>The username as the specification words it\<close>

text \<open>
  The specification of \<^verbatim>\<open>deriveUsername\<close>: the part before the first \<open>@\<close>, stripped of
  every character that is not an ASCII letter or digit, upper-cased, truncated to six
  characters; then the five fields year, month, day, hour, minute of the call time, two
  decimal digits each. These definitions follow the specification's wording and are
  compared with \<open>generateUsernameFromEmail\<close> below.
\<close>

definition two_digits :: "nat \<Rightarrow> string" where
  "two_digits n = [digit_char (n div 10), digit_char (n mod 10)]"

definition spec_prefix :: "string \<Rightarrow> string" where
  "spec_prefix email =
     take 6 (toUpperCase (filter is_alnum (takeWhile (\<lambda>c. c \<noteq> CHR ''@'') email)))"

definition spec_timestamp :: "date \<Rightarrow> string" where
  "spec_timestamp now =
     two_digits (nat (getFullYear now mod 100)) @ two_digits (getMonth now + 1) @
     two_digits (getDate now) @ two_digits (getHours now) @ two_digits (getMinutes now)"

definition spec_deriveUsername :: "date \<Rightarrow> string \<Rightarrow> string" where
  "spec_deriveUsername now email = spec_prefix email @ spec_timestamp now"

section \<open>Purchase orchestrator\<close>

subsection \<open>Inputs and result\<close>

text \<open>
  The repository holds two revisions of the orchestrator, alike in control flow and
  different in four constants: the browser's launch arguments, the page timeout, the
  navigation wait condition, and a settling delay after the final submission that only
  one of them has. \<open>Part_001\<close> is the revision with progress logging
  (\<^verbatim>\<open>src/unnamed/part_001\<close>), \<open>Part_002\<close> the one without
  (\<^verbatim>\<open>src/unnamed/part_002\<close>). Line numbers below are those of \<open>Part_001\<close>. Console
  output is not modelled. \<^verbatim>\<open>orderType\<close> has the two values of its TypeScript type.
\<close>

datatype revision = Part_001 | Part_002

datatype orderType = STANDARD | MAG_DEVICE

record PurchaseResult =
  username :: string
  password :: string
  success :: bool
  error :: "string option"
  macAddress :: "string option"
  serverUrl :: "string option"
  portalURL :: "string option"
  m3uUrl :: "string option"
  epgUrl :: "string option"
  backupServers :: "string option"

subsection \<open>The browser and the world around a run\<close>

datatype waitUntil = networkidle0 | networkidle2

text \<open>
  The calls \<^verbatim>\<open>purchasePlan\<close> makes on the automation library, the browser and the page.
  \<open>WaitForNavigationAndClick\<close> is the \<^verbatim>\<open>Promise.all\<close> of the login form, which settles
  as one; \<open>WaitForSelector\<close> waits for the element to be visible; \<open>OnDialog\<close> registers
  the handler that accepts every dialog of the page (the handler itself runs outside the
  control flow of \<^verbatim>\<open>purchasePlan\<close>).
\<close>

datatype call =
    Launch "string list"
  | NewPage
  | SetDefaultTimeout nat
  | OnDialog
  | Goto string waitUntil
  | Type string string
  | WaitForNavigationAndClick waitUntil string
  | Select string string
  | Click string
  | WaitForSelector string
  | WaitForNavigation waitUntil
  | WaitForTimeout nat
  | Close

text \<open>
  Everything a run reads from outside: the environment variables, the clock, the draws
  of \<^verbatim>\<open>Math.random()\<close>, the address \<^verbatim>\<open>page.url()\<close> reports after the first navigation,
  and how each call settles. \<open>settle w k c\<close> is the fate of call \<open>c\<close> when it is the
  \<open>k\<close>-th call of the run (counting from 0): \<open>None\<close> when it is fulfilled, \<open>Some t\<close>
  when it is rejected with \<open>t\<close> (a timeout, a missing selector, a crashed browser).
  \<^verbatim>\<open>generatePassword\<close> is the only reader of \<open>Math_random\<close>.
\<close>

record world =
  process_env :: "string \<Rightarrow> string option"
  new_Date :: date
  Math_random :: "nat \<Rightarrow> double"
  page_url :: string
  settle :: "nat \<Rightarrow> call \<Rightarrow> thrown option"

text \<open>
  The state of a run: the calls made so far, and whether the variable \<^verbatim>\<open>browser\<close>
  holds a session.
\<close>

record run =
  calls :: "call list"
  browser :: bool

type_synonym 'a step = "run \<Rightarrow> (thrown + 'a) \<times> run"

definition perform :: "world \<Rightarrow> call \<Rightarrow> unit step" where
  "perform w c s =
     (case settle w (length (calls s)) c of
        None \<Rightarrow> (Inr (), s\<lparr>calls := calls s @ [c]\<rparr>)
      | Some t \<Rightarrow> (Inl t, s\<lparr>calls := calls s @ [c]\<rparr>))"

definition throw :: "thrown \<Rightarrow> 'a step" where
  "throw t s = (Inl t, s)"

definition return :: "'a \<Rightarrow> 'a step" where
  "return x s = (Inr x, s)"

text \<open>Sequencing inside the \<^verbatim>\<open>try\<close> block: the first failure ends the block.\<close>

definition seq :: "'a step \<Rightarrow> ('a \<Rightarrow> 'b step) \<Rightarrow> 'b step" where
  "seq m f s = (case m s of (Inl t, s') \<Rightarrow> (Inl t, s') | (Inr x, s') \<Rightarrow> f x s')"

subsection \<open>The constants in which the revisions differ\<close>

fun launch_args :: "revision \<Rightarrow> string list" where
  "launch_args Part_001 =
     [''--no-sandbox'', ''--disable-setuid-sandbox'', ''--disable-web-security'',
      ''--allow-running-insecure-content'', ''--ignore-certificate-errors'']"
| "launch_args Part_002 =
     [''--disable-web-security'', ''--allow-running-insecure-content'',
      ''--ignore-certificate-errors'']"

fun timeout :: "revision \<Rightarrow> nat" where
  "timeout Part_001 = 30000"
| "timeout Part_002 = 60000"

fun idle :: "revision \<Rightarrow> waitUntil" where
  "idle Part_001 = networkidle0"
| "idle Part_002 = networkidle2"

text \<open>\<^verbatim>\<open>await page.waitForTimeout(2000)\<close>, present in one revision only.\<close>

fun settling_delay :: "revision \<Rightarrow> world \<Rightarrow> unit step" where
  "settling_delay Part_001 w = perform w (WaitForTimeout 2000)"
| "settling_delay Part_002 w = return ()"

subsection \<open>purchasePlan\<close>

text \<open>\<^verbatim>\<open>process.env.X || d\<close>: an unset or empty variable gives the default.\<close>

definition or_default :: "string option \<Rightarrow> string \<Rightarrow> string" where
  "or_default v d = (case v of None \<Rightarrow> d | Some x \<Rightarrow> if x = [] then d else x)"

text \<open>
  Lines 89-98, \<^verbatim>\<open>browser = await puppeteer.launch(...)\<close>: the variable is assigned when
  the launch is fulfilled.
\<close>

definition launch_browser :: "revision \<Rightarrow> world \<Rightarrow> unit step" where
  "launch_browser rv w s =
     (case perform w (Launch (launch_args rv)) s of
        (Inl t, s') \<Rightarrow> (Inl t, s')
      | (Inr x, s') \<Rightarrow> (Inr (), s'\<lparr>browser := True\<rparr>))"

text \<open>
  Lines 133-151, the login form, entered when the address after navigation contains
  \<^verbatim>\<open>login\<close>. \<^verbatim>\<open>!x\<close> holds of an unset and of an empty variable.
\<close>

definition login :: "revision \<Rightarrow> world \<Rightarrow> unit step" where
  "login rv w =
     (case (process_env w ''IPTV_PROVIDER_USERNAME'', process_env w ''IPTV_PROVIDER_PASSWORD'') of
        (Some providerUsername, Some providerPassword) \<Rightarrow>
          if providerUsername = [] \<or> providerPassword = []
          then throw (Error ''IPTV provider credentials not set in environment variables'')
          else
            seq (perform w (Type ''#username'' providerUsername)) (\<lambda>_.
            seq (perform w (Type ''#password'' providerPassword)) (\<lambda>_.
            perform w (WaitForNavigationAndClick (idle rv) ''#login_button'')))
      | _ \<Rightarrow> throw (Error ''IPTV provider credentials not set in environment variables''))"

text \<open>Lines 101-158, from the new page to the selection of the plan.\<close>

definition open_form :: "revision \<Rightarrow> world \<Rightarrow> string \<Rightarrow> orderType \<Rightarrow> unit step" where
  "open_form rv w planId orderType =
     seq (perform w NewPage) (\<lambda>_.
     seq (perform w (SetDefaultTimeout (timeout rv))) (\<lambda>_.
     seq (perform w OnDialog) (\<lambda>_.
     case process_env w ''IPTV_PROVIDER_URL'' of
       None \<Rightarrow> throw (Error ''IPTV_PROVIDER_URL not set in environment variables'')
     | Some baseUrl \<Rightarrow>
         if baseUrl = [] then throw (Error ''IPTV_PROVIDER_URL not set in environment variables'')
         else
           let endpoint = (if orderType = MAG_DEVICE then ''/mag'' else ''/line'');
               providerUrl = baseUrl @ endpoint
           in
             seq (perform w (Goto providerUrl (idle rv))) (\<lambda>_.
             seq (if str_includes (page_url w) ''login'' then login rv w else return ()) (\<lambda>_.
             perform w (Select ''#package'' planId))))))"

text \<open>
  Lines 160-192, the branch on the order type; it yields the local variables \<^verbatim>\<open>username\<close> and
  \<^verbatim>\<open>password\<close>. The parameter \<^verbatim>\<open>macAddress\<close> is written \<open>macAddress'\<close>, apart from the
  result's field of that name.
\<close>

definition fill_form ::
  "world \<Rightarrow> string \<Rightarrow> orderType \<Rightarrow> string option \<Rightarrow> (string \<times> string) step" where
  "fill_form w email orderType macAddress' =
     (if orderType = STANDARD then
        case generateUsernameFromEmail (new_Date w) email of
          Inl t \<Rightarrow> throw t
        | Inr username' \<Rightarrow>
            let password' = generatePassword_default (Math_random w)
            in
              seq (perform w (Type ''#username'' username')) (\<lambda>_.
              seq (perform w (Type ''#password'' password')) (\<lambda>_.
              return (username', password')))
      else
        case macAddress' of
          None \<Rightarrow> throw (Error ''macAddress is required for MAG_DEVICE orders'')
        | Some mac \<Rightarrow>
            if mac = [] then throw (Error ''macAddress is required for MAG_DEVICE orders'')
            else seq (perform w (Type ''#mac'' mac)) (\<lambda>_. return (mac, [])))"

text \<open>Lines 196-208, both submissions and the wait that follows the second.\<close>

definition submit_form :: "revision \<Rightarrow> world \<Rightarrow> unit step" where
  "submit_form rv w =
     seq (perform w (Click ''#user-details > ul > li > a'')) (\<lambda>_.
     seq (perform w (WaitForSelector ''#submit_button'')) (\<lambda>_.
     seq (perform w (Click ''#submit_button'')) (\<lambda>_.
     seq (perform w (WaitForNavigation (idle rv))) (\<lambda>_.
     settling_delay rv w))))"

text \<open>Everything the \<^verbatim>\<open>try\<close> block does before it closes the browser.\<close>

definition automation ::
  "revision \<Rightarrow> world \<Rightarrow> string \<Rightarrow> string \<Rightarrow> orderType \<Rightarrow> string option \<Rightarrow>
   (string \<times> string) step" where
  "automation rv w planId email orderType macAddress' =
     seq (launch_browser rv w) (\<lambda>_.
     seq (open_form rv w planId orderType) (\<lambda>_.
     seq (fill_form w email orderType macAddress') (\<lambda>credentials.
     seq (submit_form rv w) (\<lambda>_.
     return credentials))))"

text \<open>
  \<^verbatim>\<open>if (browser) { await browser.close(); }\<close>, in the block (lines 215-217) and in the
  handler (lines 250-252).
\<close>

definition close_browser :: "world \<Rightarrow> unit step" where
  "close_browser w s = (if browser s then perform w Close s else return () s)"

text \<open>Lines 221-245, the result of a successful purchase.\<close>

definition success_result ::
  "world \<Rightarrow> orderType \<Rightarrow> string option \<Rightarrow> string \<times> string \<Rightarrow> PurchaseResult" where
  "success_result w orderType macAddress' credentials =
     (let username' = fst credentials;
          password' = snd credentials;
          serverUrl' = or_default (process_env w ''IPTV_SERVER_URL'') ''http://ky-tv.cc:8080'';
          backupServers' = or_default (process_env w ''IPTV_BACKUP_SERVERS'') [];
          portalURL' = or_default (process_env w ''MAG_PORTAL_URL'') [];
          result = \<lparr>username = username', password = password', success = True, error = None,
                    macAddress = None, serverUrl = None, portalURL = None, m3uUrl = None,
                    epgUrl = None, backupServers = None\<rparr>
      in if orderType = STANDARD then
           result\<lparr>serverUrl := Some serverUrl',
                  backupServers := Some backupServers',
                  m3uUrl := Some (serverUrl' @ ''/get.php?username='' @ username' @ ''&password='' @
                                  password' @ ''&type=m3u_plus&output=ts''),
                  epgUrl := Some (serverUrl' @ ''/xmltv.php?username='' @ username' @
                                  ''&password='' @ password')\<rparr>
         else
           result\<lparr>macAddress := macAddress', portalURL := Some portalURL'\<rparr>)"

text \<open>
  Lines 254-259, the result of a failed purchase, with
  \<^verbatim>\<open>error instanceof Error ? error.message : "Unknown error occurred"\<close>.
\<close>

fun error_message :: "thrown \<Rightarrow> string" where
  "error_message (Error message) = message"
| "error_message NonError = ''Unknown error occurred''"

definition failure_result :: "thrown \<Rightarrow> PurchaseResult" where
  "failure_result t =
     \<lparr>username = [], password = [], success = False, error = Some (error_message t),
      macAddress = None, serverUrl = None, portalURL = None, m3uUrl = None,
      epgUrl = None, backupServers = None\<rparr>"

definition try_block ::
  "revision \<Rightarrow> world \<Rightarrow> string \<Rightarrow> string \<Rightarrow> orderType \<Rightarrow> string option \<Rightarrow>
   PurchaseResult step" where
  "try_block rv w planId email orderType macAddress' =
     seq (automation rv w planId email orderType macAddress') (\<lambda>credentials.
     seq (close_browser w) (\<lambda>_.
     return (success_result w orderType macAddress' credentials)))"

text \<open>How a call of the asynchronous function ends for its caller.\<close>

datatype 'a completion = Returned 'a | Raised thrown

definition start :: run where
  "start = \<lparr>calls = [], browser = False\<rparr>"

text \<open>
  \<^verbatim>\<open>purchasePlan\<close> (lines 77-261), with the calls it made. The handler closes the browser if
  there is one and returns the failure result; a failure inside the handler is not caught
  by anything and reaches the caller. \<^verbatim>\<open>isFreeTrial\<close> is a parameter that the body reads
  only to log it.
\<close>

definition purchasePlan ::
  "revision \<Rightarrow> world \<Rightarrow> string \<Rightarrow> string \<Rightarrow> orderType \<Rightarrow> string option \<Rightarrow> bool \<Rightarrow>
   PurchaseResult completion \<times> call list" where
  "purchasePlan rv w planId email orderType macAddress' isFreeTrial =
     (case try_block rv w planId email orderType macAddress' start of
        (Inr result, s) \<Rightarrow> (Returned result, calls s)
      | (Inl t, s) \<Rightarrow>
          (case close_browser w s of
             (Inl t', s') \<Rightarrow> (Raised t', calls s')
           | (Inr x, s') \<Rightarrow> (Returned (failure_result t), calls s')))"

subsection \<open>Notions used to state the properties\<close>

text \<open>
  A step is quiet when it leaves the variable \<^verbatim>\<open>browser\<close> alone and only adds calls other
  than \<open>Close\<close>.
\<close>

definition quiet :: "'a step \<Rightarrow> bool" where
  "quiet m \<longleftrightarrow>
     (\<forall>s. browser (snd (m s)) = browser s \<and>
          (\<exists>cs. calls (snd (m s)) = calls s @ cs \<and> Close \<notin> set cs))"

text \<open>
  The number of \<open>Close\<close> calls in a list of calls that the world fulfils at the position
  where they stand.
\<close>

definition fulfilled_closes :: "world \<Rightarrow> call list \<Rightarrow> nat" where
  "fulfilled_closes w cs =
     length (filter (\<lambda>k. cs ! k = Close \<and> settle w k Close = None) [0..<length cs])"

text \<open>
  Every call of a list is fulfilled at the position where it stands; a step is faithful
  when, on success, it keeps that true.
\<close>

definition all_fulfilled :: "world \<Rightarrow> call list \<Rightarrow> bool" where
  "all_fulfilled w cs \<longleftrightarrow> (\<forall>k<length cs. settle w k (cs ! k) = None)"

definition faithful :: "world \<Rightarrow> 'a step \<Rightarrow> bool" where
  "faithful w m \<longleftrightarrow>
     (\<forall>s x s'. m s = (Inr x, s') \<longrightarrow> all_fulfilled w (calls s) \<longrightarrow> all_fulfilled w (calls s'))"

text \<open>
  The two groups of fields that depend on the order type. A group is populated when every
  field of it is present, and absent when none is.
\<close>

definition standard_group :: "PurchaseResult \<Rightarrow> string option list" where
  "standard_group r = [serverUrl r, backupServers r, m3uUrl r, epgUrl r]"

definition mag_group :: "PurchaseResult \<Rightarrow> string option list" where
  "mag_group r = [macAddress r, portalURL r]"

definition populated :: "string option list \<Rightarrow> bool" where
  "populated g \<longleftrightarrow> None \<notin> set g"

definition absent :: "string option list \<Rightarrow> bool" where
  "absent g \<longleftrightarrow> (\<forall>f\<in>set g. f = None)"

subsection \<open>Example worlds\<close>

text \<open>
  \<open>calm\<close>: the provider address is configured, no login is asked for, every call is
  fulfilled. The others differ from it in one respect each: nothing is configured; the
  navigation times out; every \<open>Close\<close> is rejected; only the \<open>Close\<close> that is call 13 (the
  one of the successful path of a standard order) is rejected; the navigation fails and
  every \<open>Close\<close> is rejected.
\<close>

definition example_clock :: date where
  "example_clock = \<lparr>getFullYear = 2026, getMonth = 10, getDate = 2, getHours = 9, getMinutes = 5\<rparr>"

definition calm :: world where
  "calm = \<lparr>process_env = (\<lambda>name. if name = ''IPTV_PROVIDER_URL'' then Some ''https://panel.example'' else None),
           new_Date = example_clock,
           Math_random = (\<lambda>i. Double (int (i mod 4)) (- 2)),
           page_url = ''https://panel.example/line'',
           settle = (\<lambda>k c. None)\<rparr>"

definition unconfigured :: world where
  "unconfigured = calm\<lparr>process_env := (\<lambda>name. None)\<rparr>"

definition navigation_timeout :: world where
  "navigation_timeout =
     calm\<lparr>settle := (\<lambda>k c. case c of
                              Goto url u \<Rightarrow> Some (Error ''Navigation timeout of 30000 ms exceeded'')
                            | _ \<Rightarrow> None)\<rparr>"

definition close_rejected :: world where
  "close_rejected =
     calm\<lparr>settle := (\<lambda>k c. if c = Close then Some (Error ''Failed to close the browser'') else None)\<rparr>"

definition close_rejected_once :: world where
  "close_rejected_once =
     calm\<lparr>settle := (\<lambda>k c. if c = Close \<and> k = 13 then Some (Error ''Failed to close the browser'')
                           else None)\<rparr>"

definition crashed :: world where
  "crashed =
     calm\<lparr>settle := (\<lambda>k c. case c of
                              Goto url u \<Rightarrow> Some (Error ''Navigation failed because browser has disconnected!'')
                            | Close \<Rightarrow> Some (Error ''Failed to close the browser'')
                            | _ \<Rightarrow> None)\<rparr>"

section \<open>Properties of the credential generator\<close>

subsection \<open>Digits and the timestamp\<close>

lemma str_includes_single: "str_includes s [c] \<longleftrightarrow> c \<in> set s"
  by (induction s) auto

lemma is_digit_digit_char: "d < 10 \<Longrightarrow> is_digit (digit_char d)"
  by (simp add: is_digit_def digit_char_def)

lemma digit_char_0: "digit_char 0 = CHR ''0''"
  unfolding digit_char_def by code_simp

lemma toString_nat_small: "n < 10 \<Longrightarrow> toString_nat n = [digit_char n]"
  by (simp add: toString_nat.simps)

lemma toString_nat_big: "10 \<le> n \<Longrightarrow> toString_nat n = toString_nat (n div 10) @ [digit_char (n mod 10)]"
  by (subst toString_nat.simps) simp

lemma toString_nat_last: "toString_nat n \<noteq> [] \<and> last (toString_nat n) = digit_char (n mod 10)"
  by (cases "n < 10") (simp_all add: toString_nat_small toString_nat_big)

lemma padStart2_toString: "n < 100 \<Longrightarrow> padStart2 (toString_nat n) = two_digits n"
proof (cases "n < 10")
  case True
  then show ?thesis
    by (simp add: padStart2_def toString_nat_small two_digits_def digit_char_0)
next
  case False
  assume "n < 100"
  with False have "n div 10 < 10" "10 \<le> n" by simp_all
  then show ?thesis
    by (simp add: padStart2_def toString_nat_big toString_nat_small two_digits_def)
qed

lemma mod_100_split: "(n::nat) mod 100 = 10 * (n div 10 mod 10) + n mod 10"
  using mod_mult2_eq [of n 10 10] by simp

lemma slice_last2_toString:
  assumes "10 \<le> n"
  shows "slice_last2 (toString_nat n) = two_digits (n mod 100)"
proof -
  let ?m = "n div 10"
  have ne: "toString_nat ?m \<noteq> []" and la: "last (toString_nat ?m) = digit_char (?m mod 10)"
    using toString_nat_last [of ?m] by simp_all
  have "toString_nat ?m = butlast (toString_nat ?m) @ [digit_char (?m mod 10)]"
    using ne la by (metis append_butlast_last_id)
  then have "toString_nat n = butlast (toString_nat ?m) @ [digit_char (?m mod 10), digit_char (n mod 10)]"
    using assms by (simp add: toString_nat_big)
  then have "slice_last2 (toString_nat n) = [digit_char (?m mod 10), digit_char (n mod 10)]"
    by (simp add: slice_last2_def)
  then show ?thesis by (simp add: two_digits_def mod_100_split)
qed

lemma timestamp_spec: 
  assumes "wall_clock now"
  shows "timestamp now = spec_timestamp now"
proof -
  from assms have y: "10 \<le> nat (getFullYear now)" "\<not> getFullYear now < 0"
    and r: "getMonth now + 1 < 100" "getDate now < 100" "getHours now < 100" "getMinutes now < 100"
    by (auto simp: wall_clock_def)
  have "nat (getFullYear now) mod 100 = nat (getFullYear now mod 100)"
    using y(2) by (simp add: nat_mod_distrib)
  then have "slice_last2 (toString_int (getFullYear now)) = two_digits (nat (getFullYear now mod 100))"
    using y slice_last2_toString [of "nat (getFullYear now)"] by (simp add: toString_int_def)
  then show ?thesis
    using r by (simp add: timestamp_def spec_timestamp_def padStart2_toString)
qed

lemma length_two_digits: "length (two_digits n) = 2"
  by (simp add: two_digits_def)

lemma two_digits_digits: "n < 100 \<Longrightarrow> c \<in> set (two_digits n) \<Longrightarrow> is_digit c"
  by (auto simp: two_digits_def is_digit_digit_char)

lemma spec_timestamp_digits:
  assumes "wall_clock now"
  shows "length (spec_timestamp now) = 10 \<and> (\<forall>c\<in>set (spec_timestamp now). is_digit c)"
proof -
  from assms have "nat (getFullYear now mod 100) < 100" "getMonth now + 1 < 100"
    "getDate now < 100" "getHours now < 100" "getMinutes now < 100"
    by (auto simp: wall_clock_def)
  then have "\<forall>c\<in>set (two_digits (nat (getFullYear now mod 100))). is_digit c"
    "\<forall>c\<in>set (two_digits (getMonth now + 1)). is_digit c"
    "\<forall>c\<in>set (two_digits (getDate now)). is_digit c"
    "\<forall>c\<in>set (two_digits (getHours now)). is_digit c"
    "\<forall>c\<in>set (two_digits (getMinutes now)). is_digit c"
    by (blast intro: two_digits_digits)+
  then have "\<forall>c\<in>set (spec_timestamp now). is_digit c"
    by (simp only: spec_timestamp_def set_append ball_Un)
  then show ?thesis
    by (simp add: spec_timestamp_def length_two_digits)
qed

lemma toUpperCase_toLowerCase: "toUpperCase (toLowerCase s) = toUpperCase s"
  unfolding toUpperCase_def toLowerCase_def is_lower_def is_upper_def by simp

lemma toUpperCase_take: "toUpperCase (take n s) = take n (toUpperCase s)"
  by (simp add: toUpperCase_def take_map)

lemma toUpperCase_alnum:
  "\<forall>c\<in>set s. is_alnum c \<Longrightarrow> \<forall>c\<in>set (toUpperCase s). is_upper c \<or> is_digit c"
  unfolding toUpperCase_def is_alnum_def is_lower_def is_upper_def is_digit_def by auto

lemma prefix_shape:
  "length (spec_prefix email) \<le> 6 \<and> (\<forall>c\<in>set (spec_prefix email). is_upper c \<or> is_digit c)"
proof -
  have "\<forall>c\<in>set (toUpperCase (filter is_alnum (takeWhile (\<lambda>c. c \<noteq> CHR ''@'') email))). is_upper c \<or> is_digit c"
    by (rule toUpperCase_alnum) simp
  then show ?thesis
    unfolding spec_prefix_def by (auto dest: in_set_takeD)
qed

lemma generateUsernameFromEmail_ok:
  assumes "CHR ''@'' \<in> set email" and "\<exists>c\<in>set (split_at_first email). is_alnum c"
  shows "generateUsernameFromEmail now email = Inr (spec_prefix email @ timestamp now)"
    and "spec_prefix email \<noteq> []"
proof -
  from assms(2) have ne: "filter is_alnum (split_at_first email) \<noteq> []"
    by (simp add: filter_empty_conv)
  then have "toLowerCase (remove_non_alnum (split_at_first email)) \<noteq> []"
    by (simp add: toLowerCase_def remove_non_alnum_def)
  moreover have "email \<noteq> []" "str_includes email ''@''"
    using assms(1) by (auto simp: str_includes_single)
  moreover have "toUpperCase (substring0 6 (toLowerCase (remove_non_alnum (split_at_first email)))) = spec_prefix email"
    by (simp add: substring0_def toUpperCase_take toUpperCase_toLowerCase spec_prefix_def
        remove_non_alnum_def split_at_first_def)
  ultimately show "generateUsernameFromEmail now email = Inr (spec_prefix email @ timestamp now)"
    by (simp add: generateUsernameFromEmail_def Let_def)
  show "spec_prefix email \<noteq> []"
    using ne by (simp add: spec_prefix_def toUpperCase_def split_at_first_def)
qed

subsection \<open>The password loop\<close>

lemma length_charset: "length charset = 26"
  by (simp add: charset_def)

lemma charset_lower: "c \<in> set charset \<Longrightarrow> is_lower c"
  unfolding charset_def is_lower_def by auto

lemma round_half_bound:
  fixes n :: int and k :: nat
  assumes "0 \<le> n"
  defines "q \<equiv> n div 2 ^ k" and "r \<equiv> n mod 2 ^ k"
  defines "q' \<equiv> (if 2 ^ k < 2 * r \<or> (2 * r = 2 ^ k \<and> odd q) then q + 1 else q)"
  shows "0 \<le> q'" and "2 * (q' * 2 ^ k) \<le> 2 * n + 2 ^ k"
proof -
  have n: "n = q * 2 ^ k + r"
    unfolding q_def r_def by (rule div_mult_mod_eq [symmetric])
  have r: "0 \<le> r" by (simp add: r_def)
  have q: "0 \<le> q" using assms(1) by (simp add: q_def pos_imp_zdiv_nonneg_iff)
  then show "0 \<le> q'" by (simp add: q'_def)
  show "2 * (q' * 2 ^ k) \<le> 2 * n + 2 ^ k"
    using r by (subst n) (auto simp: q'_def algebra_simps)
qed

lemma valof_scaled:
  "valof (Double q (int k - int j)) = of_int (q * 2 ^ k) / 2 ^ j"
  by (simp add: valof_def power_int_diff)

lemma times_26_below:
  assumes "is_double d" and "valof d < 1"
  shows "\<exists>d'. double_times d (double_of_nat 26) = Some d' \<and> 0 \<le> valof d' \<and> valof d' < 26"
proof -
  define m where "m = significand d"
  define e where "e = exponent d"
  define n where "n = m * 26"
  define k where "k = nat (max (bitlen n - 53) (- 1074 - e))"
  define q' where "q' = (if 2 ^ k < 2 * (n mod 2 ^ k) \<or> (2 * (n mod 2 ^ k) = 2 ^ k \<and> odd (n div 2 ^ k))
                         then n div 2 ^ k + 1 else n div 2 ^ k)"
  from assms(1) have m: "0 \<le> m" "m < 2 ^ 53" and e: "- 1074 \<le> e"
    by (simp_all add: is_double_def m_def e_def)
  have n0: "0 \<le> n" using m by (simp add: n_def)
  have "n < 2 ^ 58" using m by (simp add: n_def)
  then have "bitlen n \<le> 58" by (simp add: bitlen_le_iff_power)
  with e have "k \<le> 5" by (simp add: k_def)
  then have "(2::int) ^ k \<le> 2 ^ 5" by (rule power_increasing) simp
  then have k32: "(2::int) ^ k \<le> 32" by simp
  from round_half_bound [OF n0, of k]
  have q0: "0 \<le> q'" and half: "2 * (q' * 2 ^ k) \<le> 2 * n + 2 ^ k"
    by (simp_all add: q'_def)
  have run: "double_times d (double_of_nat 26) =
             (if 2 ^ 1024 \<le> valof (Double q' (e + int k)) then None else Some (Double q' (e + int k)))"
    by (simp add: double_times_def double_of_nat_def round_to_double_def Let_def
        m_def [symmetric] e_def [symmetric] n_def [symmetric] k_def [symmetric] q'_def [symmetric])
  have pos: "0 \<le> valof (Double q' (e + int k))"
    using q0 by (simp add: valof_def)
  have below: "valof (Double q' (e + int k)) < 26"
  proof (cases "m = 0")
    case True
    then have "n = 0" by (simp add: n_def)
    then have "q' = 0" by (simp add: q'_def)
    then show ?thesis by (simp add: valof_def)
  next
    case False
    with m have mpos: "1 \<le> m" by simp
    have eneg: "e < 0"
    proof (rule ccontr)
      assume "\<not> e < 0"
      then have "1 \<le> power_int (2::real) e" by (simp add: one_le_power_int)
      moreover have "(1::real) \<le> of_int m" using mpos by simp
      ultimately have "(1::real) * 1 \<le> of_int m * power_int 2 e"
        by (intro mult_mono) simp_all
      with assms(2) show False by (simp add: valof_def m_def e_def)
    qed
    define j where "j = nat (- e)"
    have ej: "e = - int j" using eneg by (simp add: j_def)
    from assms(2) have "of_int m / 2 ^ j < (1::real)"
      by (simp add: valof_def m_def [symmetric] e_def [symmetric] ej power_int_minus field_simps)
    then have "(of_int m :: real) < 2 ^ j" by (simp add: field_simps)
    then have "(of_int m :: real) < of_int (2 ^ j)" by simp
    then have "m < 2 ^ j" by (simp only: of_int_less_iff)
    then have "26 * (m + 1) \<le> 26 * 2 ^ j" by simp
    with half k32 have "q' * 2 ^ k < 26 * 2 ^ j" by (simp add: n_def)
    then have "(of_int (q' * 2 ^ k) :: real) < of_int (26 * 2 ^ j)"
      by (simp only: of_int_less_iff)
    then have "(of_int (q' * 2 ^ k) :: real) / 2 ^ j < 26"
      by (simp add: field_simps)
    moreover have "e + int k = int k - int j" by (simp add: ej)
    ultimately show ?thesis by (simp only: valof_scaled)
  qed
  then have "\<not> 2 ^ 1024 \<le> valof (Double q' (e + int k))" by simp
  with run pos below show ?thesis by simp
qed

lemma charset_at_index:
  "0 \<le> k \<Longrightarrow> k < 26 \<Longrightarrow> \<exists>c. charset_at (Some k) = [c] \<and> is_lower c"
proof -
  assume "0 \<le> k" "k < 26"
  then have "charset_at (Some k) = [charset ! nat k]" "nat k < length charset"
    by (simp_all add: charset_at_def length_charset)
  then show ?thesis
    using charset_lower nth_mem by blast
qed

lemma charset_at_draw:
  assumes "is_double d" "valof d < 1"
  shows "\<exists>c. charset_at (Math_floor (double_times d (double_of_nat (length charset)))) = [c] \<and>
             is_lower c"
proof -
  from times_26_below [OF assms] obtain d'
    where d': "double_times d (double_of_nat 26) = Some d'" "0 \<le> valof d'" "valof d' < 26"
    by blast
  have "0 \<le> \<lfloor>valof d'\<rfloor>" using d'(2) by simp
  moreover have "\<lfloor>valof d'\<rfloor> < 26" using d'(3) by (simp add: floor_less_iff)
  ultimately show ?thesis
    using charset_at_index [of "\<lfloor>valof d'\<rfloor>"] d'(1)
    by (simp add: Math_floor_def length_charset)
qed

lemma generatePassword_loop_shape:
  "unit_interval rnd \<Longrightarrow>
   length (generatePassword_loop rnd len i pw) = length pw + nat (len - i) \<and>
   set (generatePassword_loop rnd len i pw) \<subseteq> set pw \<union> {c. is_lower c}"
proof (induction rnd len i pw rule: generatePassword_loop.induct)
  case (1 rnd len i pw)
  show ?case
  proof (cases "i < len")
    case False
    then show ?thesis
      by (subst (1 2) generatePassword_loop.simps) auto
  next
    case True
    from \<open>unit_interval rnd\<close> obtain c
      where c: "charset_at (Math_floor (double_times (rnd (nat i)) (double_of_nat (length charset)))) = [c]"
        "is_lower c"
      using charset_at_draw [of "rnd (nat i)"] by (auto simp: unit_interval_def)
    have step: "generatePassword_loop rnd len i pw =
                generatePassword_loop rnd len (i + 1) (pw @ [c])"
      using True c(1) by (subst generatePassword_loop.simps) (simp add: Let_def)
    have "nat (len - i) = Suc (nat (len - (i + 1)))"
      using True by simp
    then show ?thesis
      using "1.IH" [OF True refl \<open>unit_interval rnd\<close>] c unfolding step by auto
  qed
qed

text \<open>Unfolding rules that evaluate the loop on given draws.\<close>

lemmas double_eval = Math_floor_def double_times_def double_of_nat_def round_to_double_def
  valof_def Let_def compute_bitlen power_int_minus

lemmas password_eval = generatePassword_default_def generatePassword_def
  generatePassword_loop.simps charset_at_def charset_def double_eval

subsection \<open>Claims about the credential generator\<close>

text \<open>
  Claim C3. For every email containing an \<open>@\<close> with at least one ASCII letter or digit
  before the first \<open>@\<close>, and every reading of the wall clock,
  \<open>generateUsernameFromEmail\<close> returns what the specification describes: the part
  before the \<open>@\<close> stripped of every other character, upper-cased and cut to at most six
  characters, followed by the ten digits \<open>YYMMDDHHmm\<close> of the call time. The prefix is
  not empty and consists of upper-case letters and digits, the timestamp of exactly ten
  digits, and the whole has at most sixteen characters. The result is a function of the
  email and the clock reading alone. The clock reading is one a running system can show:
  calendar ranges for month, day, hour and minute, and a year of at least two digits.
\<close>

theorem generateUsernameFromEmail_shape:
  assumes "CHR ''@'' \<in> set email"
    and "\<exists>c\<in>set (split_at_first email). is_alnum c"
    and "wall_clock now"
  shows "generateUsernameFromEmail now email = Inr (spec_deriveUsername now email) \<and>
         spec_deriveUsername now email = spec_prefix email @ spec_timestamp now \<and>
         spec_prefix email \<noteq> [] \<and> length (spec_prefix email) \<le> 6 \<and>
         (\<forall>c\<in>set (spec_prefix email). is_upper c \<or> is_digit c) \<and>
         length (spec_timestamp now) = 10 \<and> (\<forall>c\<in>set (spec_timestamp now). is_digit c) \<and>
         length (spec_deriveUsername now email) \<le> 16"
proof -
  have "generateUsernameFromEmail now email = Inr (spec_deriveUsername now email)"
    using generateUsernameFromEmail_ok(1) [OF assms(1,2)] timestamp_spec [OF assms(3)]
    by (simp add: spec_deriveUsername_def)
  moreover have "spec_prefix email \<noteq> []"
    by (rule generateUsernameFromEmail_ok(2) [OF assms(1,2)])
  moreover have "length (spec_deriveUsername now email) \<le> 16"
    using prefix_shape [of email] spec_timestamp_digits [OF assms(3)]
    by (simp add: spec_deriveUsername_def)
  ultimately show ?thesis
    using prefix_shape [of email] spec_timestamp_digits [OF assms(3)]
    by (simp add: spec_deriveUsername_def)
qed

theorem generateUsernameFromEmail_shape_witness:
  "CHR ''@'' \<in> set ''jane.doe@example.com'' \<and>
   (\<exists>c\<in>set (split_at_first ''jane.doe@example.com''). is_alnum c) \<and>
   wall_clock \<lparr>getFullYear = 2026, getMonth = 10, getDate = 2, getHours = 9, getMinutes = 5\<rparr> \<and>
   generateUsernameFromEmail
     \<lparr>getFullYear = 2026, getMonth = 10, getDate = 2, getHours = 9, getMinutes = 5\<rparr>
     ''jane.doe@example.com'' = Inr ''JANEDO2611020905''"
proof -
  let ?now = "\<lparr>getFullYear = 2026, getMonth = 10, getDate = 2, getHours = 9, getMinutes = 5\<rparr>"
  have h1: "CHR ''@'' \<in> set ''jane.doe@example.com''" by simp
  have h2: "\<exists>c\<in>set (split_at_first ''jane.doe@example.com''). is_alnum c" by code_simp
  have h3: "wall_clock ?now" by (simp add: wall_clock_def)
  have v: "spec_deriveUsername ?now ''jane.doe@example.com'' = ''JANEDO2611020905''" by code_simp
  show ?thesis
    using generateUsernameFromEmail_shape [OF h1 h2 h3] h1 h2 h3 v by simp
qed

text \<open>
  Claim C4. \<open>generateUsernameFromEmail\<close> fails, with one of its two error messages,
  exactly when the email is empty, contains no \<open>@\<close>, or has no ASCII letter or digit
  before the first \<open>@\<close>; for every other email it returns a username.
\<close>

theorem generateUsernameFromEmail_fails_iff:
  "(generateUsernameFromEmail now email = Inl (Error ''Invalid email address'') \<or>
    generateUsernameFromEmail now email = Inl (Error ''Email prefix is invalid after cleaning''))
     = (email = [] \<or> CHR ''@'' \<notin> set email \<or> \<not> (\<exists>c\<in>set (split_at_first email). is_alnum c))
   \<and> (\<exists>username. generateUsernameFromEmail now email = Inr username)
     = (\<not> (email = [] \<or> CHR ''@'' \<notin> set email \<or> \<not> (\<exists>c\<in>set (split_at_first email). is_alnum c)))"
  by (auto simp: generateUsernameFromEmail_def Let_def str_includes_single toLowerCase_def
      remove_non_alnum_def filter_empty_conv)

theorem generateUsernameFromEmail_fails_iff_witness:
  "generateUsernameFromEmail
     \<lparr>getFullYear = 2026, getMonth = 10, getDate = 2, getHours = 9, getMinutes = 5\<rparr> ''.-@example.com''
     = Inl (Error ''Email prefix is invalid after cleaning'') \<and>
   generateUsernameFromEmail
     \<lparr>getFullYear = 2026, getMonth = 10, getDate = 2, getHours = 9, getMinutes = 5\<rparr> ''no-at-sign''
     = Inl (Error ''Invalid email address'') \<and>
   (\<exists>username. generateUsernameFromEmail
     \<lparr>getFullYear = 2026, getMonth = 10, getDate = 2, getHours = 9, getMinutes = 5\<rparr> ''a@b'' = Inr username)"
proof -
  let ?now = "\<lparr>getFullYear = 2026, getMonth = 10, getDate = 2, getHours = 9, getMinutes = 5\<rparr>"
  have a: "generateUsernameFromEmail ?now ''.-@example.com'' = Inl (Error ''Email prefix is invalid after cleaning'')"
    by code_simp
  have b: "generateUsernameFromEmail ?now ''no-at-sign'' = Inl (Error ''Invalid email address'')"
    by code_simp
  have c: "\<not> (''a@b'' = [] \<or> CHR ''@'' \<notin> set ''a@b'' \<or> \<not> (\<exists>c\<in>set (split_at_first ''a@b''). is_alnum c))"
    by code_simp
  show ?thesis
    using generateUsernameFromEmail_fails_iff [of ?now "''a@b''"] a b c by blast
qed

text \<open>
  Claim C9. For every length \<open>n\<close> (a natural number, passed as the integer the loop
  counts up to), \<open>generatePassword\<close> returns a string of exactly \<open>n\<close> characters, each
  a lower-case ASCII letter; the default length is eight. The draws of the random source
  are doubles in \<open>[0, 1)\<close>, as \<^verbatim>\<open>Math.random()\<close> promises; the product with the
  charset's length is the rounded double-precision product, which stays below 26 because
  at most five bits are dropped.
\<close>

theorem generatePassword_shape:
  assumes "unit_interval rnd"
  shows "length (generatePassword rnd (int n)) = n \<and>
         (\<forall>c\<in>set (generatePassword rnd (int n)). is_lower c) \<and>
         generatePassword_default rnd = generatePassword rnd (int 8) \<and>
         length (generatePassword_default rnd) = 8"
proof -
  have "\<And>len. length (generatePassword rnd len) = nat len \<and>
              (\<forall>c\<in>set (generatePassword rnd len). is_lower c)"
    using generatePassword_loop_shape [OF assms, of _ 0 "[]"]
    by (auto simp: generatePassword_def)
  then show ?thesis
    by (simp add: generatePassword_default_def)
qed

theorem generatePassword_shape_witness:
  "unit_interval example_draws \<and>
   Math_floor (double_times (example_draws 0) (double_of_nat (length charset))) = Some 5 \<and>
   generatePassword example_draws (int 3) = ''fgn'' \<and>
   length (generatePassword example_draws (int 3)) = 3 \<and>
   length (generatePassword_default example_draws) = 8"
proof -
  have q: "\<And>i::nat. int (i mod 4) < 2 ^ 53 \<and>
             real_of_int (int (i mod 4)) * power_int 2 (- 2) < 1"
  proof -
    fix i :: nat
    have "i mod 4 < 4" by simp
    then have "int (i mod 4) < 4" by linarith
    then show "int (i mod 4) < 2 ^ 53 \<and> real_of_int (int (i mod 4)) * power_int 2 (- 2) < 1"
      by (simp add: power_int_minus)
  qed
  have u: "unit_interval example_draws"
    using q by (simp add: unit_interval_def example_draws_def is_double_def valof_def power_int_minus)
  have p: "Math_floor (double_times (example_draws 0) (double_of_nat (length charset))) = Some 5"
    by (simp add: double_eval example_draws_def charset_def)
  have v: "generatePassword example_draws (int 3) = ''fgn''"
    by (simp add: password_eval example_draws_def)
  show ?thesis
    using generatePassword_shape [OF u, of 3] u p v by blast
qed

section \<open>Properties of the orchestrator\<close>

subsection \<open>Quiet steps\<close>

lemma quiet_perform: "c \<noteq> Close \<Longrightarrow> quiet (perform w c)"
  by (simp add: quiet_def perform_def split: option.split)

lemma quiet_throw: "quiet (throw t)"
  by (simp add: quiet_def throw_def)

lemma quiet_return: "quiet (return x)"
  by (simp add: quiet_def return_def)

lemma quiet_seq:
  assumes "quiet m" and "\<And>x. quiet (f x)"
  shows "quiet (seq m f)"
  unfolding quiet_def
proof
  fix s
  obtain r s' where m: "m s = (r, s')" by (cases "m s")
  from assms(1) m obtain cs where 1: "browser s' = browser s" "calls s' = calls s @ cs" "Close \<notin> set cs"
    unfolding quiet_def by (metis snd_conv)
  show "browser (snd (seq m f s)) = browser s \<and>
        (\<exists>cs. calls (snd (seq m f s)) = calls s @ cs \<and> Close \<notin> set cs)"
  proof (cases r)
    case (Inl t)
    then show ?thesis using m 1 by (simp add: seq_def)
  next
    case (Inr x)
    from assms(2) [of x] obtain ds where 2: "browser (snd (f x s')) = browser s'"
      "calls (snd (f x s')) = calls s' @ ds" "Close \<notin> set ds"
      unfolding quiet_def by blast
    have "seq m f s = f x s'" using m Inr by (simp add: seq_def)
    then show ?thesis using 1 2 by simp
  qed
qed

lemma quiet_settling_delay: "quiet (settling_delay rv w)"
  by (cases rv) (simp_all add: quiet_perform quiet_return)

lemma quiet_login: "quiet (login rv w)"
  unfolding login_def
  by (auto intro!: quiet_seq quiet_perform quiet_throw split: option.split)

lemma quiet_open_form: "quiet (open_form rv w planId orderType)"
  unfolding open_form_def Let_def
  by (auto intro!: quiet_seq quiet_perform quiet_throw quiet_return quiet_login split: option.split)

lemma quiet_fill_form: "quiet (fill_form w email orderType macAddress')"
  unfolding fill_form_def Let_def
  by (auto intro!: quiet_seq quiet_perform quiet_throw quiet_return split: option.split sum.split)

lemma quiet_submit_form: "quiet (submit_form rv w)"
  unfolding submit_form_def
  by (intro quiet_seq quiet_perform quiet_settling_delay) simp_all

subsection \<open>Successful steps and the shape of a run\<close>

lemma seq_Inr:
  "seq m f s = (Inr y, s'') \<longleftrightarrow> (\<exists>x s'. m s = (Inr x, s') \<and> f x s' = (Inr y, s''))"
  by (cases "m s") (auto simp: seq_def split: sum.splits)

lemma seq_assoc: "seq (seq m f) g = seq m (\<lambda>x. seq (f x) g)"
  by (rule ext) (simp add: seq_def split: prod.split sum.split)

lemma perform_Inr:
  "perform w c s = (Inr x, s') \<longleftrightarrow> settle w (length (calls s)) c = None \<and> s' = s\<lparr>calls := calls s @ [c]\<rparr>"
  by (auto simp: perform_def split: option.splits)

lemma quiet_after_launch:
  "quiet (seq (open_form rv w planId orderType) (\<lambda>_.
          seq (fill_form w email orderType macAddress') (\<lambda>credentials.
          seq (submit_form rv w) (\<lambda>_. return credentials))))"
  by (intro quiet_seq quiet_open_form quiet_fill_form quiet_submit_form quiet_return)

lemma automation_run:
  assumes "automation rv w planId email orderType macAddress' start = (r, s)"
  shows "Close \<notin> set (calls s)"
    and "calls s \<noteq> []"
    and "browser s \<longleftrightarrow> settle w 0 (Launch (launch_args rv)) = None"
    and "\<not> isl r \<Longrightarrow> browser s"
proof -
  let ?rest = "seq (open_form rv w planId orderType) (\<lambda>_.
          seq (fill_form w email orderType macAddress') (\<lambda>credentials.
          seq (submit_form rv w) (\<lambda>_. return credentials)))"
  let ?s1 = "\<lparr>calls = [Launch (launch_args rv)], browser = True\<rparr>"
  have shape: "Close \<notin> set (calls s) \<and> calls s \<noteq> [] \<and>
     (browser s \<longleftrightarrow> settle w 0 (Launch (launch_args rv)) = None) \<and> (\<not> isl r \<longrightarrow> browser s)"
  proof (cases "settle w 0 (Launch (launch_args rv))")
    case (Some t)
    then have "automation rv w planId email orderType macAddress' start =
               (Inl t, \<lparr>calls = [Launch (launch_args rv)], browser = False\<rparr>)"
      by (simp add: automation_def seq_def launch_browser_def perform_def start_def)
    with assms Some show ?thesis by auto
  next
    case None
    then have "automation rv w planId email orderType macAddress' start = ?rest ?s1"
      by (simp add: automation_def seq_def launch_browser_def perform_def start_def)
    with assms have run: "?rest ?s1 = (r, s)" by simp
    from quiet_after_launch [of rv w planId orderType email macAddress']
    obtain cs where "browser (snd (?rest ?s1)) = browser ?s1"
      "calls (snd (?rest ?s1)) = calls ?s1 @ cs" "Close \<notin> set cs"
      unfolding quiet_def by blast
    with run None show ?thesis by simp
  qed
  from shape show "Close \<notin> set (calls s)" by simp
  from shape show "calls s \<noteq> []" by simp
  from shape show "browser s \<longleftrightarrow> settle w 0 (Launch (launch_args rv)) = None" by blast
  from shape show "\<not> isl r \<Longrightarrow> browser s" by blast
qed

lemma purchasePlan_unfold:
  assumes "automation rv w planId email orderType macAddress' start = (r, s)"
  shows "purchasePlan rv w planId email orderType macAddress' isFreeTrial =
    (case r of
       Inr credentials \<Rightarrow>
         (case settle w (length (calls s)) Close of
            None \<Rightarrow> (Returned (success_result w orderType macAddress' credentials), calls s @ [Close])
          | Some t \<Rightarrow>
              (case settle w (Suc (length (calls s))) Close of
                 None \<Rightarrow> (Returned (failure_result t), calls s @ [Close, Close])
               | Some t' \<Rightarrow> (Raised t', calls s @ [Close, Close])))
     | Inl t \<Rightarrow>
         if browser s
         then (case settle w (length (calls s)) Close of
                 None \<Rightarrow> (Returned (failure_result t), calls s @ [Close])
               | Some t' \<Rightarrow> (Raised t', calls s @ [Close]))
         else (Returned (failure_result t), calls s))"
proof (cases r)
  case (Inl t)
  then show ?thesis
    using assms
    by (simp add: purchasePlan_def try_block_def seq_def close_browser_def perform_def return_def
        split: option.split)
next
  case (Inr credentials)
  then have "browser s" using automation_run(4) [OF assms] by simp
  then show ?thesis
    using assms Inr
    by (simp add: purchasePlan_def try_block_def seq_def close_browser_def perform_def return_def
        split: option.split)
qed

lemma fill_form_Inr:
  assumes "fill_form w email orderType macAddress' s = (Inr (u, p), s')"
  shows "orderType = STANDARD \<Longrightarrow>
           generateUsernameFromEmail (new_Date w) email = Inr u \<and>
           p = generatePassword_default (Math_random w)"
    and "orderType = MAG_DEVICE \<Longrightarrow> macAddress' = Some u \<and> u \<noteq> [] \<and> p = []"
  using assms
  by (auto simp: fill_form_def Let_def seq_Inr return_def throw_def
      split: if_splits sum.splits option.splits)

lemma automation_Inr:
  assumes "automation rv w planId email orderType macAddress' s0 = (Inr credentials, s)"
  shows "\<exists>s2 s3. fill_form w email orderType macAddress' s2 = (Inr credentials, s3) \<and>
                 submit_form rv w s3 = (Inr (), s)"
  using assms by (auto simp: automation_def seq_Inr return_def)

lemma submit_form_Inr:
  assumes "submit_form rv w s = (Inr x, s')"
  shows "calls s' = calls s @ [Click ''#user-details > ul > li > a'', WaitForSelector ''#submit_button'',
           Click ''#submit_button'', WaitForNavigation (idle rv)] @
           (case rv of Part_001 \<Rightarrow> [WaitForTimeout 2000] | Part_002 \<Rightarrow> [])"
  using assms
  by (cases rv) (auto simp: submit_form_def seq_Inr perform_Inr return_def)

lemma purchasePlan_paths:
  "\<exists>r s. automation rv w planId email orderType macAddress' start = (r, s) \<and>
     Close \<notin> set (calls s) \<and> calls s \<noteq> [] \<and>
     ((\<exists>t. r = Inl t \<and> settle w 0 (Launch (launch_args rv)) \<noteq> None \<and>
           purchasePlan rv w planId email orderType macAddress' isFreeTrial =
             (Returned (failure_result t), calls s)) \<or>
      (\<exists>t. r = Inl t \<and> settle w 0 (Launch (launch_args rv)) = None \<and>
           settle w (length (calls s)) Close = None \<and>
           purchasePlan rv w planId email orderType macAddress' isFreeTrial =
             (Returned (failure_result t), calls s @ [Close])) \<or>
      (\<exists>t t'. r = Inl t \<and> settle w 0 (Launch (launch_args rv)) = None \<and>
           settle w (length (calls s)) Close = Some t' \<and>
           purchasePlan rv w planId email orderType macAddress' isFreeTrial =
             (Raised t', calls s @ [Close])) \<or>
      (\<exists>u p. r = Inr (u, p) \<and> settle w 0 (Launch (launch_args rv)) = None \<and>
           settle w (length (calls s)) Close = None \<and>
           purchasePlan rv w planId email orderType macAddress' isFreeTrial =
             (Returned (success_result w orderType macAddress' (u, p)), calls s @ [Close])) \<or>
      (\<exists>u p t. r = Inr (u, p) \<and> settle w 0 (Launch (launch_args rv)) = None \<and>
           settle w (length (calls s)) Close = Some t \<and>
           settle w (Suc (length (calls s))) Close = None \<and>
           purchasePlan rv w planId email orderType macAddress' isFreeTrial =
             (Returned (failure_result t), calls s @ [Close, Close])) \<or>
      (\<exists>u p t t'. r = Inr (u, p) \<and> settle w 0 (Launch (launch_args rv)) = None \<and>
           settle w (length (calls s)) Close = Some t \<and>
           settle w (Suc (length (calls s))) Close = Some t' \<and>
           purchasePlan rv w planId email orderType macAddress' isFreeTrial =
             (Raised t', calls s @ [Close, Close])))"
proof -
  obtain r s where run: "automation rv w planId email orderType macAddress' start = (r, s)"
    by (cases "automation rv w planId email orderType macAddress' start")
  note facts = automation_run [OF run]
  note pp = purchasePlan_unfold [OF run, of isFreeTrial]
  show ?thesis
  proof (cases r)
    case (Inl t)
    show ?thesis
    proof (cases "browser s")
      case False
      with Inl pp facts run show ?thesis by auto
    next
      case True
      with Inl pp facts run show ?thesis
        by (cases "settle w (length (calls s)) Close") auto
    qed
  next
    case (Inr c)
    obtain u p where c: "c = (u, p)" by (cases c)
    from Inr facts have "browser s" by simp
    with Inr c pp facts run show ?thesis
      by (cases "settle w (length (calls s)) Close"; cases "settle w (Suc (length (calls s))) Close")
        auto
  qed
qed

lemma success_result_success: "success (success_result w orderType macAddress' c)"
  by (simp add: success_result_def Let_def)

lemma failure_result_fields:
  "\<not> success (failure_result t)" "username (failure_result t) = []"
  "password (failure_result t) = []" "error (failure_result t) = Some (error_message t)"
  by (simp_all add: failure_result_def)

lemma purchasePlan_success:
  assumes "fst (purchasePlan rv w planId email orderType macAddress' isFreeTrial) = Returned r"
    and "success r"
  shows "\<exists>u p s. automation rv w planId email orderType macAddress' start = (Inr (u, p), s) \<and>
           settle w (length (calls s)) Close = None \<and>
           r = success_result w orderType macAddress' (u, p) \<and>
           snd (purchasePlan rv w planId email orderType macAddress' isFreeTrial) = calls s @ [Close]"
  using purchasePlan_paths [of rv w planId email orderType macAddress' isFreeTrial] assms
  by (auto simp: failure_result_fields)

lemma try_block_Inr:
  assumes "try_block rv w planId email orderType macAddress' s0 = (Inr r, s)"
  shows "\<exists>c. r = success_result w orderType macAddress' c"
  using assms by (auto simp: try_block_def seq_Inr return_def)

lemma fulfilled_closes_none:
  "Close \<notin> set pre \<Longrightarrow>
   filter (\<lambda>k. (pre @ rest) ! k = Close \<and> P k) [0..<length pre] = []"
  by (auto simp: filter_empty_conv nth_append) (metis nth_mem)

lemma fulfilled_closes_plain: "Close \<notin> set pre \<Longrightarrow> fulfilled_closes w pre = 0"
  using fulfilled_closes_none [of pre "[]"] by (simp add: fulfilled_closes_def)

lemma fulfilled_closes_once:
  "Close \<notin> set pre \<Longrightarrow>
   fulfilled_closes w (pre @ [Close]) = (if settle w (length pre) Close = None then 1 else 0)"
  using fulfilled_closes_none [of pre "[Close]"] by (simp add: fulfilled_closes_def)

lemma fulfilled_closes_twice:
  "Close \<notin> set pre \<Longrightarrow>
   fulfilled_closes w (pre @ [Close, Close]) =
     (if settle w (length pre) Close = None then 1 else 0) +
     (if settle w (Suc (length pre)) Close = None then 1 else 0)"
  using fulfilled_closes_none [of pre "[Close, Close]"]
  by (simp add: fulfilled_closes_def nth_append)

lemma count_close_plain: "Close \<notin> set pre \<Longrightarrow> count_list pre Close = 0"
  by simp

lemma fill_form_mag_absent:
  "macAddress' = None \<or> macAddress' = Some [] \<Longrightarrow>
   fill_form w email MAG_DEVICE macAddress' s =
     (Inl (Error ''macAddress is required for MAG_DEVICE orders''), s)"
  by (auto simp: fill_form_def throw_def)

lemma automation_mag_absent:
  assumes "macAddress' = None \<or> macAddress' = Some []"
    and "seq (launch_browser rv w) (\<lambda>_. open_form rv w planId MAG_DEVICE) start = (Inr (), s)"
  shows "automation rv w planId email MAG_DEVICE macAddress' start =
           (Inl (Error ''macAddress is required for MAG_DEVICE orders''), s)"
proof -
  have "automation rv w planId email MAG_DEVICE macAddress' =
        seq (seq (launch_browser rv w) (\<lambda>_. open_form rv w planId MAG_DEVICE)) (\<lambda>_.
        seq (fill_form w email MAG_DEVICE macAddress') (\<lambda>credentials.
        seq (submit_form rv w) (\<lambda>_. return credentials)))"
    by (simp add: automation_def seq_assoc)
  then show ?thesis
    using assms(2) fill_form_mag_absent [OF assms(1)] by (simp add: seq_def)
qed

subsection \<open>A successful run has every call fulfilled\<close>

lemma all_fulfilled_snoc:
  "all_fulfilled w cs \<Longrightarrow> settle w (length cs) c = None \<Longrightarrow> all_fulfilled w (cs @ [c])"
  by (auto simp: all_fulfilled_def nth_append less_Suc_eq)

lemma faithful_perform: "faithful w (perform w c)"
  by (auto simp: faithful_def perform_Inr all_fulfilled_snoc)

lemma faithful_throw: "faithful w (throw t)"
  by (simp add: faithful_def throw_def)

lemma faithful_return: "faithful w (return x)"
  by (simp add: faithful_def return_def)

lemma faithful_seq:
  assumes "faithful w m" and "\<And>x. faithful w (f x)"
  shows "faithful w (seq m f)"
  using assms unfolding faithful_def seq_Inr by blast

lemma faithful_launch_browser: "faithful w (launch_browser rv w)"
  using faithful_perform [of w "Launch (launch_args rv)"]
  by (auto simp: faithful_def launch_browser_def split: prod.splits sum.splits)

lemma faithful_close_browser: "faithful w (close_browser w)"
  using faithful_perform [of w Close]
  by (auto simp: faithful_def close_browser_def return_def split: if_splits)

lemma faithful_settling_delay: "faithful w (settling_delay rv w)"
  by (cases rv) (simp_all add: faithful_perform faithful_return)

lemma faithful_login: "faithful w (login rv w)"
  unfolding login_def
  by (auto intro!: faithful_seq faithful_perform faithful_throw split: option.split)

lemma faithful_open_form: "faithful w (open_form rv w planId orderType)"
  unfolding open_form_def Let_def
  by (auto intro!: faithful_seq faithful_perform faithful_throw faithful_return faithful_login
      split: option.split)

lemma faithful_fill_form: "faithful w (fill_form w email orderType macAddress')"
  unfolding fill_form_def Let_def
  by (auto intro!: faithful_seq faithful_perform faithful_throw faithful_return
      split: option.split sum.split)

lemma faithful_submit_form: "faithful w (submit_form rv w)"
  unfolding submit_form_def
  by (intro faithful_seq faithful_perform faithful_settling_delay)

lemma faithful_try_block: "faithful w (try_block rv w planId email orderType macAddress')"
  unfolding try_block_def automation_def
  by (intro faithful_seq faithful_launch_browser faithful_open_form faithful_fill_form
      faithful_submit_form faithful_close_browser faithful_return)

lemma purchasePlan_success_fulfilled:
  assumes "purchasePlan rv w planId email orderType macAddress' isFreeTrial = (Returned r, cs)"
    and "success r"
  shows "all_fulfilled w cs"
proof -
  obtain x s where run: "try_block rv w planId email orderType macAddress' start = (x, s)"
    by (cases "try_block rv w planId email orderType macAddress' start")
  show ?thesis
  proof (cases x)
    case (Inr result)
    with run assms(1) have "cs = calls s"
      by (simp add: purchasePlan_def)
    moreover have "all_fulfilled w (calls start)"
      by (simp add: all_fulfilled_def start_def)
    ultimately show ?thesis
      using faithful_try_block [of w rv planId email orderType macAddress'] run Inr
      unfolding faithful_def by blast
  next
    case (Inl t)
    with run assms(1) have "r = failure_result t"
      by (auto simp: purchasePlan_def split: prod.splits sum.splits)
    with assms(2) show ?thesis
      by (simp add: failure_result_fields)
  qed
qed

subsection \<open>How a call ends, and how often the browser is closed\<close>

text \<open>
  Every failure of the \<^verbatim>\<open>try\<close> block reaches the handler. When the handler finishes, the
  caller receives the successful result, with no \<open>error\<close>, or the failure result with the
  message of the captured failure. The call raises exactly when the handler's own close is
  rejected, with that rejection; where no \<open>Close\<close> is ever rejected it always returns.
\<close>

lemma purchasePlan_completion:
  "(\<forall>r. fst (purchasePlan rv w planId email orderType macAddress' isFreeTrial) = Returned r \<longrightarrow>
        (success r \<and> error r = None \<and>
         (\<exists>s. try_block rv w planId email orderType macAddress' start = (Inr r, s))) \<or>
        (\<exists>t s. try_block rv w planId email orderType macAddress' start = (Inl t, s) \<and>
               r = failure_result t \<and> username r = [] \<and> password r = [] \<and> \<not> success r \<and>
               error r = Some (error_message t))) \<and>
   (\<forall>t'. fst (purchasePlan rv w planId email orderType macAddress' isFreeTrial) = Raised t' \<longrightarrow>
        (\<exists>t s. try_block rv w planId email orderType macAddress' start = (Inl t, s) \<and>
               browser s \<and> settle w (length (calls s)) Close = Some t')) \<and>
   (\<forall>t s t'. try_block rv w planId email orderType macAddress' start = (Inl t, s) \<and>
        browser s \<and> settle w (length (calls s)) Close = Some t' \<longrightarrow>
        fst (purchasePlan rv w planId email orderType macAddress' isFreeTrial) = Raised t') \<and>
   ((\<forall>k. settle w k Close = None) \<longrightarrow>
        (\<exists>r. fst (purchasePlan rv w planId email orderType macAddress' isFreeTrial) = Returned r))"
proof -
  obtain x s where run: "try_block rv w planId email orderType macAddress' start = (x, s)"
    by (cases "try_block rv w planId email orderType macAddress' start")
  show ?thesis
  proof (cases x)
    case (Inr result)
    with run have "purchasePlan rv w planId email orderType macAddress' isFreeTrial =
                   (Returned result, calls s)"
      by (simp add: purchasePlan_def)
    moreover from try_block_Inr run Inr have "success result \<and> error result = None"
      by (fastforce simp: success_result_def Let_def)
    ultimately show ?thesis using run Inr by simp
  next
    case (Inl t)
    show ?thesis
    proof (cases "browser s")
      case False
      with run Inl have "purchasePlan rv w planId email orderType macAddress' isFreeTrial =
                         (Returned (failure_result t), calls s)"
        by (simp add: purchasePlan_def close_browser_def return_def)
      then show ?thesis using run Inl False by (simp add: failure_result_fields)
    next
      case True
      show ?thesis
      proof (cases "settle w (length (calls s)) Close")
        case None
        with True run Inl have "purchasePlan rv w planId email orderType macAddress' isFreeTrial =
                         (Returned (failure_result t), calls s @ [Close])"
          by (simp add: purchasePlan_def close_browser_def perform_def)
        then show ?thesis using run Inl None by (simp add: failure_result_fields)
      next
        case (Some t')
        with True run Inl have "purchasePlan rv w planId email orderType macAddress' isFreeTrial =
                         (Raised t', calls s @ [Close])"
          by (simp add: purchasePlan_def close_browser_def perform_def)
        then show ?thesis using run Inl True Some by auto
      qed
    qed
  qed
qed

text \<open>
  When the launch is rejected no \<open>Close\<close> is ever requested. When a session is acquired,
  the last call of the run is \<open>Close\<close>; it is requested once, or twice when the automation
  succeeded and the \<open>Close\<close> of the \<^verbatim>\<open>try\<close> block was rejected. Whenever a result is
  returned exactly one \<open>Close\<close> was fulfilled; whenever the call raises, none was.
\<close>

lemma purchasePlan_close_requests:
  "(settle w 0 (Launch (launch_args rv)) \<noteq> None \<longrightarrow>
      Close \<notin> set (snd (purchasePlan rv w planId email orderType macAddress' isFreeTrial))) \<and>
   (settle w 0 (Launch (launch_args rv)) = None \<longrightarrow>
      last (snd (purchasePlan rv w planId email orderType macAddress' isFreeTrial)) = Close \<and>
      (count_list (snd (purchasePlan rv w planId email orderType macAddress' isFreeTrial)) Close =
         (if \<exists>u p s. automation rv w planId email orderType macAddress' start = (Inr (u, p), s) \<and>
                      settle w (length (calls s)) Close \<noteq> None
          then 2 else 1)) \<and>
      (\<forall>r. fst (purchasePlan rv w planId email orderType macAddress' isFreeTrial) = Returned r \<longrightarrow>
           fulfilled_closes w (snd (purchasePlan rv w planId email orderType macAddress' isFreeTrial)) = 1) \<and>
      (\<forall>t. fst (purchasePlan rv w planId email orderType macAddress' isFreeTrial) = Raised t \<longrightarrow>
           fulfilled_closes w (snd (purchasePlan rv w planId email orderType macAddress' isFreeTrial)) = 0))"
proof -
  from purchasePlan_paths [of rv w planId email orderType macAddress' isFreeTrial]
  obtain r s where run: "automation rv w planId email orderType macAddress' start = (r, s)"
    and pre: "Close \<notin> set (calls s)"
    and paths:
     "(\<exists>t. r = Inl t \<and> settle w 0 (Launch (launch_args rv)) \<noteq> None \<and>
           purchasePlan rv w planId email orderType macAddress' isFreeTrial =
             (Returned (failure_result t), calls s)) \<or>
      (\<exists>t. r = Inl t \<and> settle w 0 (Launch (launch_args rv)) = None \<and>
           settle w (length (calls s)) Close = None \<and>
           purchasePlan rv w planId email orderType macAddress' isFreeTrial =
             (Returned (failure_result t), calls s @ [Close])) \<or>
      (\<exists>t t'. r = Inl t \<and> settle w 0 (Launch (launch_args rv)) = None \<and>
           settle w (length (calls s)) Close = Some t' \<and>
           purchasePlan rv w planId email orderType macAddress' isFreeTrial =
             (Raised t', calls s @ [Close])) \<or>
      (\<exists>u p. r = Inr (u, p) \<and> settle w 0 (Launch (launch_args rv)) = None \<and>
           settle w (length (calls s)) Close = None \<and>
           purchasePlan rv w planId email orderType macAddress' isFreeTrial =
             (Returned (success_result w orderType macAddress' (u, p)), calls s @ [Close])) \<or>
      (\<exists>u p t. r = Inr (u, p) \<and> settle w 0 (Launch (launch_args rv)) = None \<and>
           settle w (length (calls s)) Close = Some t \<and>
           settle w (Suc (length (calls s))) Close = None \<and>
           purchasePlan rv w planId email orderType macAddress' isFreeTrial =
             (Returned (failure_result t), calls s @ [Close, Close])) \<or>
      (\<exists>u p t t'. r = Inr (u, p) \<and> settle w 0 (Launch (launch_args rv)) = None \<and>
           settle w (length (calls s)) Close = Some t \<and>
           settle w (Suc (length (calls s))) Close = Some t' \<and>
           purchasePlan rv w planId email orderType macAddress' isFreeTrial =
             (Raised t', calls s @ [Close, Close]))"
    by blast
  note cnt = fulfilled_closes_plain [OF pre, of w] fulfilled_closes_once [OF pre, of w]
    fulfilled_closes_twice [OF pre, of w] count_close_plain [OF pre]
  from paths show ?thesis
    by (elim disjE exE conjE) (simp_all add: run pre cnt)
qed

lemma automation_early_failure:
  assumes "seq (launch_browser rv w) (\<lambda>_. open_form rv w planId orderType) start = (Inl t, s)"
  shows "automation rv w planId email orderType macAddress' start = (Inl t, s)"
proof -
  have "automation rv w planId email orderType macAddress' =
        seq (seq (launch_browser rv w) (\<lambda>_. open_form rv w planId orderType)) (\<lambda>_.
        seq (fill_form w email orderType macAddress') (\<lambda>credentials.
        seq (submit_form rv w) (\<lambda>_. return credentials)))"
    by (simp add: automation_def seq_assoc)
  then show ?thesis
    using assms by (simp add: seq_def)
qed

lemma purchasePlan_failed_automation:
  assumes "automation rv w planId email orderType macAddress' start = (Inl t, s)"
    and "fst (purchasePlan rv w planId email orderType macAddress' isFreeTrial) = Returned r"
  shows "r = failure_result t"
  using purchasePlan_unfold [OF assms(1), of isFreeTrial] assms(2)
  by (auto split: if_splits option.splits)

subsection \<open>Runs in the example worlds\<close>

lemma calm_username:
  "generateUsernameFromEmail example_clock ''jane.doe@example.com'' = Inr ''JANEDO2611020905''"
  by code_simp

lemma calm_password:
  "generatePassword_default (\<lambda>i. Double (int (i mod 4)) (- 2)) = ''agntagnt''"
  by (simp add: password_eval)

lemma calm_no_login: "\<not> str_includes ''https://panel.example/line'' ''login''"
  by code_simp

lemmas run_defs = purchasePlan_def try_block_def automation_def launch_browser_def open_form_def
  login_def fill_form_def submit_form_def close_browser_def seq_def perform_def throw_def
  return_def start_def Let_def

lemma calm_standard_run:
  "purchasePlan Part_001 calm ''BASIC'' ''jane.doe@example.com'' STANDARD None False =
     (Returned (success_result calm STANDARD None (''JANEDO2611020905'', ''agntagnt'')),
      [Launch [''--no-sandbox'', ''--disable-setuid-sandbox'', ''--disable-web-security'',
               ''--allow-running-insecure-content'', ''--ignore-certificate-errors''],
       NewPage, SetDefaultTimeout 30000, OnDialog,
       Goto ''https://panel.example/line'' networkidle0,
       Select ''#package'' ''BASIC'', Type ''#username'' ''JANEDO2611020905'',
       Type ''#password'' ''agntagnt'', Click ''#user-details > ul > li > a'',
       WaitForSelector ''#submit_button'', Click ''#submit_button'',
       WaitForNavigation networkidle0, WaitForTimeout 2000, Close])"
  by (simp add: run_defs calm_def calm_username calm_password calm_no_login)

lemma calm_standard_result:
  "success_result calm STANDARD None (''JANEDO2611020905'', ''agntagnt'') =
     \<lparr>username = ''JANEDO2611020905'', password = ''agntagnt'', success = True, error = None,
      macAddress = None, serverUrl = Some ''http://ky-tv.cc:8080'', portalURL = None,
      m3uUrl = Some ''http://ky-tv.cc:8080/get.php?username=JANEDO2611020905&password=agntagnt&type=m3u_plus&output=ts'',
      epgUrl = Some ''http://ky-tv.cc:8080/xmltv.php?username=JANEDO2611020905&password=agntagnt'',
      backupServers = Some []\<rparr>"
  by (simp add: success_result_def or_default_def calm_def Let_def)

lemma calm_reach_mag_form:
  "seq (launch_browser Part_001 calm) (\<lambda>_. open_form Part_001 calm ''BASIC'' MAG_DEVICE) start =
     (Inr (), \<lparr>calls = [Launch (launch_args Part_001), NewPage, SetDefaultTimeout 30000, OnDialog,
                        Goto ''https://panel.example/mag'' networkidle0, Select ''#package'' ''BASIC''],
               browser = True\<rparr>)"
  by (simp add: run_defs calm_def calm_no_login)

lemma calm_mag_run:
  "fst (purchasePlan Part_001 calm ''BASIC'' ''jane.doe@example.com'' MAG_DEVICE
          (Some ''00:1A:2B:3C:4D:5E'') False) =
     Returned (success_result calm MAG_DEVICE (Some ''00:1A:2B:3C:4D:5E'') (''00:1A:2B:3C:4D:5E'', []))"
  by (simp add: run_defs calm_def calm_no_login)

lemma unconfigured_reach_mag_form:
  "seq (launch_browser Part_001 unconfigured) (\<lambda>_. open_form Part_001 unconfigured ''BASIC'' MAG_DEVICE)
     start =
     (Inl (Error ''IPTV_PROVIDER_URL not set in environment variables''),
      \<lparr>calls = [Launch (launch_args Part_001), NewPage, SetDefaultTimeout 30000, OnDialog],
       browser = True\<rparr>)"
  by (simp add: run_defs unconfigured_def calm_def)

lemma unconfigured_mag_returns:
  "\<exists>r. fst (purchasePlan Part_001 unconfigured ''BASIC'' ''jane.doe@example.com'' MAG_DEVICE None False)
     = Returned r"
  by (simp add: run_defs unconfigured_def calm_def)

text \<open>
  With only the close of the successful path rejected, a submitted order comes back as a
  failure, after two close requests.
\<close>

lemma close_rejected_once_run:
  "purchasePlan Part_001 close_rejected_once ''BASIC'' ''jane.doe@example.com'' STANDARD None False =
     (Returned (failure_result (Error ''Failed to close the browser'')),
      [Launch (launch_args Part_001), NewPage, SetDefaultTimeout 30000, OnDialog,
       Goto ''https://panel.example/line'' networkidle0,
       Select ''#package'' ''BASIC'', Type ''#username'' ''JANEDO2611020905'',
       Type ''#password'' ''agntagnt'', Click ''#user-details > ul > li > a'',
       WaitForSelector ''#submit_button'', Click ''#submit_button'',
       WaitForNavigation networkidle0, WaitForTimeout 2000, Close, Close])"
  by (simp add: run_defs close_rejected_once_def calm_def calm_username calm_password calm_no_login)

subsection \<open>Claims about the orchestrator\<close>

text \<open>
  Claim C1. \<open>purchasePlan\<close> never raises to its caller: every failure is captured and
  returned as a result with \<open>username\<close> and \<open>password\<close> empty, \<open>success = False\<close> and the
  failure's message in \<open>error\<close>, and a successful result has no \<open>error\<close>. The code
  breaks this in its handler, which awaits \<^verbatim>\<open>browser.close()\<close> outside any \<^verbatim>\<open>try\<close>: where
  the navigation fails and the browser then refuses to close, the call raises the close
  error instead of returning the failure result.
\<close>

theorem purchasePlan_raises:
  "fst (purchasePlan Part_001 crashed ''BASIC'' ''jane.doe@example.com'' STANDARD None False) =
     Raised (Error ''Failed to close the browser'')"
  by (simp add: run_defs crashed_def calm_def)

text \<open>
  Claim C2, as the code has it. On every successful result exactly one of the two field
  groups is populated and the other is absent, and the order type alone decides which:
  \<open>serverUrl\<close>, \<open>backupServers\<close>, \<open>m3uUrl\<close>, \<open>epgUrl\<close> for \<open>STANDARD\<close>;
  \<open>macAddress\<close>, \<open>portalURL\<close> for \<open>MAG_DEVICE\<close>. A failure result carries neither
  group.
\<close>

theorem purchasePlan_field_groups:
  assumes "fst (purchasePlan rv w planId email orderType macAddress' isFreeTrial) = Returned r"
  shows "(success r \<and> orderType = STANDARD \<longrightarrow>
            populated (standard_group r) \<and> absent (mag_group r)) \<and>
         (success r \<and> orderType = MAG_DEVICE \<longrightarrow>
            populated (mag_group r) \<and> absent (standard_group r)) \<and>
         (\<not> success r \<longrightarrow> absent (standard_group r) \<and> absent (mag_group r))"
proof (cases "success r")
  case False
  with assms purchasePlan_paths [of rv w planId email orderType macAddress' isFreeTrial]
  obtain t where "r = failure_result t"
    by (auto simp: success_result_success)
  then show ?thesis
    by (simp add: failure_result_def absent_def standard_group_def mag_group_def)
next
  case True
  from purchasePlan_success [OF assms True] obtain u p s
    where run: "automation rv w planId email orderType macAddress' start = (Inr (u, p), s)"
      and r: "r = success_result w orderType macAddress' (u, p)"
    by blast
  from automation_Inr [OF run] obtain s2 s3
    where fill: "fill_form w email orderType macAddress' s2 = (Inr (u, p), s3)"
    by blast
  show ?thesis
  proof (cases orderType)
    case STANDARD
    then show ?thesis
      using r True
      by (simp add: success_result_def Let_def populated_def absent_def standard_group_def
          mag_group_def)
  next
    case MAG_DEVICE
    with fill_form_Inr(2) [OF fill] have "macAddress' = Some u" by simp
    with MAG_DEVICE show ?thesis
      using r True
      by (simp add: success_result_def Let_def populated_def absent_def standard_group_def
          mag_group_def)
  qed
qed

theorem purchasePlan_field_groups_witness:
  "fst (purchasePlan Part_001 calm ''BASIC'' ''jane.doe@example.com'' STANDARD None False) =
     Returned (success_result calm STANDARD None (''JANEDO2611020905'', ''agntagnt'')) \<and>
   success (success_result calm STANDARD None (''JANEDO2611020905'', ''agntagnt'')) \<and>
   populated (standard_group (success_result calm STANDARD None (''JANEDO2611020905'', ''agntagnt''))) \<and>
   absent (mag_group (success_result calm STANDARD None (''JANEDO2611020905'', ''agntagnt'')))"
proof -
  have v: "fst (purchasePlan Part_001 calm ''BASIC'' ''jane.doe@example.com'' STANDARD None False) =
     Returned (success_result calm STANDARD None (''JANEDO2611020905'', ''agntagnt''))"
    by (simp add: calm_standard_run)
  show ?thesis
    using purchasePlan_field_groups [OF v] v by (simp add: success_result_success)
qed

text \<open>
  The claim as stated (every returned result) fails on a failure result: with no provider
  address configured the call returns a result with neither group populated.
\<close>

theorem purchasePlan_failure_populates_neither:
  "fst (purchasePlan Part_001 unconfigured ''BASIC'' ''jane.doe@example.com'' STANDARD None False) =
     Returned (failure_result (Error ''IPTV_PROVIDER_URL not set in environment variables'')) \<and>
   \<not> populated (standard_group
        (failure_result (Error ''IPTV_PROVIDER_URL not set in environment variables''))) \<and>
   \<not> populated (mag_group
        (failure_result (Error ''IPTV_PROVIDER_URL not set in environment variables'')))"
  by (simp add: run_defs unconfigured_def calm_def failure_result_def populated_def
      standard_group_def mag_group_def)

text \<open>
  Claim C5. On every successful result of a \<open>STANDARD\<close> order, \<open>m3uUrl\<close> and \<open>epgUrl\<close>
  are the two fixed templates filled with the server address and with the \<open>username\<close>
  and \<open>password\<close> of the same result; the server address is the configured
  \<^verbatim>\<open>IPTV_SERVER_URL\<close>, and \<^verbatim>\<open>http://ky-tv.cc:8080\<close> when that is unset (or empty).
\<close>

theorem purchasePlan_standard_urls:
  assumes "fst (purchasePlan rv w planId email STANDARD macAddress' isFreeTrial) = Returned r"
    and "success r"
  shows "serverUrl r = Some (or_default (process_env w ''IPTV_SERVER_URL'') ''http://ky-tv.cc:8080'') \<and>
         m3uUrl r = Some (or_default (process_env w ''IPTV_SERVER_URL'') ''http://ky-tv.cc:8080'' @
                          ''/get.php?username='' @ username r @ ''&password='' @ password r @
                          ''&type=m3u_plus&output=ts'') \<and>
         epgUrl r = Some (or_default (process_env w ''IPTV_SERVER_URL'') ''http://ky-tv.cc:8080'' @
                          ''/xmltv.php?username='' @ username r @ ''&password='' @ password r) \<and>
         (process_env w ''IPTV_SERVER_URL'' = None \<longrightarrow> serverUrl r = Some ''http://ky-tv.cc:8080'') \<and>
         (\<forall>url. process_env w ''IPTV_SERVER_URL'' = Some url \<and> url \<noteq> [] \<longrightarrow> serverUrl r = Some url)"
proof -
  from purchasePlan_success [OF assms] obtain u p
    where "r = success_result w STANDARD macAddress' (u, p)"
    by blast
  then show ?thesis
    by (simp add: success_result_def Let_def or_default_def)
qed

theorem purchasePlan_standard_urls_witness:
  "fst (purchasePlan Part_001 calm ''BASIC'' ''jane.doe@example.com'' STANDARD None False) =
     Returned (success_result calm STANDARD None (''JANEDO2611020905'', ''agntagnt'')) \<and>
   process_env calm ''IPTV_SERVER_URL'' = None \<and>
   m3uUrl (success_result calm STANDARD None (''JANEDO2611020905'', ''agntagnt'')) =
     Some ''http://ky-tv.cc:8080/get.php?username=JANEDO2611020905&password=agntagnt&type=m3u_plus&output=ts'' \<and>
   epgUrl (success_result calm STANDARD None (''JANEDO2611020905'', ''agntagnt'')) =
     Some ''http://ky-tv.cc:8080/xmltv.php?username=JANEDO2611020905&password=agntagnt''"
proof -
  let ?r = "success_result calm STANDARD None (''JANEDO2611020905'', ''agntagnt'')"
  have v: "fst (purchasePlan Part_001 calm ''BASIC'' ''jane.doe@example.com'' STANDARD None False) =
     Returned ?r"
    by (simp add: calm_standard_run)
  have s: "success ?r" by (rule success_result_success)
  have e: "process_env calm ''IPTV_SERVER_URL'' = None" by (simp add: calm_def)
  have n: "username ?r = ''JANEDO2611020905''" "password ?r = ''agntagnt''"
    by (simp_all add: calm_standard_result)
  show ?thesis
    using purchasePlan_standard_urls [OF v s] v e n by (simp add: or_default_def)
qed

text \<open>
  Claim C6, as the code has it. The check for the MAC address sits in the middle of the
  flow. With the address absent (undefined or empty) a \<open>MAG_DEVICE\<close> order never
  succeeds, and every result returned has \<open>username\<close> and \<open>password\<close> empty. When the
  steps before the check (launch, new page, configuration, navigation, login if asked
  for, plan selection) all succeed, every result returned carries the error
  \<^verbatim>\<open>macAddress is required for MAG_DEVICE orders\<close>, and the call returns it whenever the
  handler's close is fulfilled. When one of those steps fails, every result returned
  carries the message of that earlier failure instead. With the address present, every
  successful result has \<open>username\<close> equal to it, an empty \<open>password\<close>, and echoes it in
  \<open>macAddress\<close>.
\<close>

theorem purchasePlan_mag_device:
  "((macAddress' = None \<or> macAddress' = Some []) \<longrightarrow>
      (\<forall>r. fst (purchasePlan rv w planId email MAG_DEVICE macAddress' isFreeTrial) = Returned r \<longrightarrow>
           \<not> success r \<and> username r = [] \<and> password r = []) \<and>
      (\<forall>s. seq (launch_browser rv w) (\<lambda>_. open_form rv w planId MAG_DEVICE) start = (Inr (), s) \<and>
           settle w (length (calls s)) Close = None \<longrightarrow>
           purchasePlan rv w planId email MAG_DEVICE macAddress' isFreeTrial =
             (Returned (failure_result (Error ''macAddress is required for MAG_DEVICE orders'')),
              calls s @ [Close])) \<and>
      (\<forall>s r. seq (launch_browser rv w) (\<lambda>_. open_form rv w planId MAG_DEVICE) start = (Inr (), s) \<and>
           fst (purchasePlan rv w planId email MAG_DEVICE macAddress' isFreeTrial) = Returned r \<longrightarrow>
           r = failure_result (Error ''macAddress is required for MAG_DEVICE orders'') \<and>
           error r = Some ''macAddress is required for MAG_DEVICE orders'') \<and>
      (\<forall>t s r. seq (launch_browser rv w) (\<lambda>_. open_form rv w planId MAG_DEVICE) start = (Inl t, s) \<and>
           fst (purchasePlan rv w planId email MAG_DEVICE macAddress' isFreeTrial) = Returned r \<longrightarrow>
           r = failure_result t \<and> error r = Some (error_message t))) \<and>
   (\<forall>mac r. macAddress' = Some mac \<and>
        fst (purchasePlan rv w planId email MAG_DEVICE macAddress' isFreeTrial) = Returned r \<and>
        success r \<longrightarrow>
        username r = mac \<and> password r = [] \<and> macAddress r = Some mac \<and> mac \<noteq> [])"
proof -
  let ?pp = "purchasePlan rv w planId email MAG_DEVICE macAddress' isFreeTrial"
  let ?reach = "seq (launch_browser rv w) (\<lambda>_. open_form rv w planId MAG_DEVICE) start"
  let ?msg = "''macAddress is required for MAG_DEVICE orders''"
  have never: "\<not> success r \<and> username r = [] \<and> password r = []"
    if absent: "macAddress' = None \<or> macAddress' = Some []" and ret: "fst ?pp = Returned r" for r
  proof -
    have "\<not> success r"
    proof
      assume "success r"
      from purchasePlan_success [OF ret this] obtain u p s
        where "automation rv w planId email MAG_DEVICE macAddress' start = (Inr (u, p), s)"
        by blast
      from automation_Inr [OF this] obtain s2 s3
        where "fill_form w email MAG_DEVICE macAddress' s2 = (Inr (u, p), s3)"
        by blast
      with fill_form_mag_absent [OF absent, of w email s2] show False by simp
    qed
    with ret purchasePlan_paths [of rv w planId email MAG_DEVICE macAddress' isFreeTrial]
    obtain t where "r = failure_result t"
      by (auto simp: success_result_success)
    then show ?thesis
      by (simp add: failure_result_fields)
  qed
  have reached: "?pp = (Returned (failure_result (Error ?msg)), calls s @ [Close])"
    if absent: "macAddress' = None \<or> macAddress' = Some []"
      and reach: "?reach = (Inr (), s)" and close: "settle w (length (calls s)) Close = None" for s
  proof -
    from reach have run: "automation rv w planId email MAG_DEVICE macAddress' start = (Inl (Error ?msg), s)"
      using automation_mag_absent [OF absent] by blast
    from reach have "settle w 0 (Launch (launch_args rv)) = None"
      by (auto simp: seq_Inr launch_browser_def perform_def start_def split: option.splits)
    with automation_run(3) [OF run] have "browser s" by simp
    with purchasePlan_unfold [OF run, of isFreeTrial] close show ?thesis by simp
  qed
  have reached_msg: "r = failure_result (Error ?msg) \<and> error r = Some ?msg"
    if absent: "macAddress' = None \<or> macAddress' = Some []"
      and reach: "?reach = (Inr (), s)" and ret: "fst ?pp = Returned r" for s r
  proof -
    from reach have "automation rv w planId email MAG_DEVICE macAddress' start = (Inl (Error ?msg), s)"
      using automation_mag_absent [OF absent] by blast
    from purchasePlan_failed_automation [OF this ret] show ?thesis
      by (simp add: failure_result_fields)
  qed
  have earlier: "r = failure_result t \<and> error r = Some (error_message t)"
    if reach: "?reach = (Inl t, s)" and ret: "fst ?pp = Returned r" for t s r
    using purchasePlan_failed_automation [OF automation_early_failure [OF reach] ret]
    by (simp add: failure_result_fields)
  have present: "username r = mac \<and> password r = [] \<and> macAddress r = Some mac \<and> mac \<noteq> []"
    if m: "macAddress' = Some mac" and ret: "fst ?pp = Returned r" and suc: "success r" for mac r
  proof -
    from purchasePlan_success [OF ret suc] obtain u p s
      where run: "automation rv w planId email MAG_DEVICE macAddress' start = (Inr (u, p), s)"
        and r: "r = success_result w MAG_DEVICE macAddress' (u, p)"
      by blast
    from automation_Inr [OF run] obtain s2 s3
      where "fill_form w email MAG_DEVICE macAddress' s2 = (Inr (u, p), s3)"
      by blast
    from fill_form_Inr(2) [OF this] m have "u = mac" "mac \<noteq> []" "p = []" by simp_all
    with r m show ?thesis
      by (simp add: success_result_def Let_def)
  qed
  show ?thesis
    using never reached reached_msg earlier present
    by (intro conjI impI allI) blast+
qed

theorem purchasePlan_mag_device_witness:
  "purchasePlan Part_001 calm ''BASIC'' ''jane.doe@example.com'' MAG_DEVICE None False =
     (Returned (failure_result (Error ''macAddress is required for MAG_DEVICE orders'')),
      [Launch (launch_args Part_001), NewPage, SetDefaultTimeout 30000, OnDialog,
       Goto ''https://panel.example/mag'' networkidle0, Select ''#package'' ''BASIC'', Close]) \<and>
   fst (purchasePlan Part_001 unconfigured ''BASIC'' ''jane.doe@example.com'' MAG_DEVICE None False) =
     Returned (failure_result (Error ''IPTV_PROVIDER_URL not set in environment variables'')) \<and>
   fst (purchasePlan Part_001 calm ''BASIC'' ''jane.doe@example.com'' MAG_DEVICE
          (Some ''00:1A:2B:3C:4D:5E'') False) =
     Returned (success_result calm MAG_DEVICE (Some ''00:1A:2B:3C:4D:5E'') (''00:1A:2B:3C:4D:5E'', [])) \<and>
   username (success_result calm MAG_DEVICE (Some ''00:1A:2B:3C:4D:5E'') (''00:1A:2B:3C:4D:5E'', []))
     = ''00:1A:2B:3C:4D:5E'' \<and>
   password (success_result calm MAG_DEVICE (Some ''00:1A:2B:3C:4D:5E'') (''00:1A:2B:3C:4D:5E'', []))
     = []"
proof -
  let ?mac = "''00:1A:2B:3C:4D:5E''"
  have none: "(None :: string option) = None \<or> (None :: string option) = Some []" by simp
  note absent_parts = purchasePlan_mag_device [of None Part_001 calm "''BASIC''"
      "''jane.doe@example.com''" False, THEN conjunct1, THEN mp, OF none]
  note early_parts = purchasePlan_mag_device [of None Part_001 unconfigured "''BASIC''"
      "''jane.doe@example.com''" False, THEN conjunct1, THEN mp, OF none]
  note present_part = purchasePlan_mag_device [of "Some ?mac" Part_001 calm "''BASIC''"
      "''jane.doe@example.com''" False, THEN conjunct2, THEN spec, THEN spec, THEN mp]
  have c: "settle calm (length (calls \<lparr>calls = [Launch (launch_args Part_001), NewPage,
             SetDefaultTimeout 30000, OnDialog, Goto ''https://panel.example/mag'' networkidle0,
             Select ''#package'' ''BASIC''], browser = True\<rparr>)) Close = None"
    by (simp add: calm_def)
  have absent: "purchasePlan Part_001 calm ''BASIC'' ''jane.doe@example.com'' MAG_DEVICE None False =
     (Returned (failure_result (Error ''macAddress is required for MAG_DEVICE orders'')),
      [Launch (launch_args Part_001), NewPage, SetDefaultTimeout 30000, OnDialog,
       Goto ''https://panel.example/mag'' networkidle0, Select ''#package'' ''BASIC'', Close])"
    using absent_parts [THEN conjunct2, THEN conjunct1, THEN spec, THEN mp,
        OF conjI, OF calm_reach_mag_form c]
    by simp
  from unconfigured_mag_returns obtain r
    where r: "fst (purchasePlan Part_001 unconfigured ''BASIC'' ''jane.doe@example.com'' MAG_DEVICE
                None False) = Returned r"
    by blast
  from early_parts [THEN conjunct2, THEN conjunct2, THEN conjunct2, THEN spec, THEN spec, THEN spec,
      THEN mp, OF conjI, OF unconfigured_reach_mag_form r]
  have "r = failure_result (Error ''IPTV_PROVIDER_URL not set in environment variables'')"
    by simp
  with r have earlier: "fst (purchasePlan Part_001 unconfigured ''BASIC'' ''jane.doe@example.com''
       MAG_DEVICE None False) =
     Returned (failure_result (Error ''IPTV_PROVIDER_URL not set in environment variables''))"
    by simp
  have s: "success (success_result calm MAG_DEVICE (Some ?mac) (?mac, []))"
    by (rule success_result_success)
  from present_part [of ?mac "success_result calm MAG_DEVICE (Some ?mac) (?mac, [])"] calm_mag_run s
  have "username (success_result calm MAG_DEVICE (Some ?mac) (?mac, [])) = ?mac \<and>
        password (success_result calm MAG_DEVICE (Some ?mac) (?mac, [])) = []"
    by simp
  with absent earlier calm_mag_run show ?thesis
    by simp
qed

text \<open>
  The claim as stated (the MAC error for every call without an address) fails when an
  earlier step fails: a navigation timeout is reported instead.
\<close>

theorem mag_device_absent_other_error:
  "fst (purchasePlan Part_001 navigation_timeout ''BASIC'' ''jane.doe@example.com'' MAG_DEVICE None False) =
     Returned (failure_result (Error ''Navigation timeout of 30000 ms exceeded'')) \<and>
   error (failure_result (Error ''Navigation timeout of 30000 ms exceeded'')) \<noteq>
     Some ''macAddress is required for MAG_DEVICE orders''"
  by (simp add: run_defs navigation_timeout_def calm_def failure_result_def)

text \<open>
  Claim C7. Whenever a browser session is acquired it is released exactly once before
  \<open>purchasePlan\<close> completes, on every exit path, and no release is attempted when the
  launch fails. The code breaks this where its own \<^verbatim>\<open>browser.close()\<close> is rejected: the
  close of the successful path stands inside the \<^verbatim>\<open>try\<close> block, so the handler requests
  a second one. With every other call fulfilled and each close rejected, \<open>Close\<close> is
  requested twice and the call raises.
\<close>

theorem purchasePlan_closes_twice:
  "fst (purchasePlan Part_001 close_rejected ''BASIC'' ''jane.doe@example.com'' STANDARD None False) =
     Raised (Error ''Failed to close the browser'') \<and>
   count_list (snd (purchasePlan Part_001 close_rejected ''BASIC'' ''jane.doe@example.com''
                      STANDARD None False)) Close = 2"
  by (simp add: run_defs close_rejected_def calm_def calm_username calm_password calm_no_login)

text \<open>
  Claim C8, as the code has it, in terms of the calls made (elapsed time is not
  modelled; the delay is the argument of the request). In every successful run each call
  made was fulfilled, so each wait ran to its end. In every successful run of revision
  \<open>Part_001\<close> the calls end with the activation of \<^verbatim>\<open>#submit_button\<close>, the wait for
  navigation until \<^verbatim>\<open>networkidle0\<close>, a wait of 2000 milliseconds, and the close. In every
  successful run of revision \<open>Part_002\<close> they end with the activation, the wait for
  navigation until \<^verbatim>\<open>networkidle2\<close> (at most two connections in flight), and the close:
  that revision has no settling delay.
\<close>

theorem purchasePlan_final_wait:
  assumes "purchasePlan rv w planId email orderType macAddress' isFreeTrial = (Returned r, cs)"
    and "success r"
  shows "all_fulfilled w cs \<and>
         (rv = Part_001 \<longrightarrow>
            (\<exists>pre. cs = pre @ [Click ''#submit_button'', WaitForNavigation networkidle0,
                               WaitForTimeout 2000, Close])) \<and>
         (rv = Part_002 \<longrightarrow>
            (\<exists>pre. cs = pre @ [Click ''#submit_button'', WaitForNavigation networkidle2, Close]))"
proof -
  from assms(1) have f: "fst (purchasePlan rv w planId email orderType macAddress' isFreeTrial) = Returned r"
    and c: "snd (purchasePlan rv w planId email orderType macAddress' isFreeTrial) = cs"
    by simp_all
  from purchasePlan_success [OF f assms(2)] c obtain u p s
    where run: "automation rv w planId email orderType macAddress' start = (Inr (u, p), s)"
      and cs: "cs = calls s @ [Close]"
    by auto
  from automation_Inr [OF run] obtain s3 where "submit_form rv w s3 = (Inr (), s)"
    by blast
  from submit_form_Inr [OF this] cs purchasePlan_success_fulfilled [OF assms] show ?thesis
    by (cases rv) simp_all
qed

theorem purchasePlan_final_wait_witness:
  "success (success_result calm STANDARD None (''JANEDO2611020905'', ''agntagnt'')) \<and>
   all_fulfilled calm
     (snd (purchasePlan Part_001 calm ''BASIC'' ''jane.doe@example.com'' STANDARD None False)) \<and>
   (\<exists>pre. snd (purchasePlan Part_001 calm ''BASIC'' ''jane.doe@example.com'' STANDARD None False) =
      pre @ [Click ''#submit_button'', WaitForNavigation networkidle0, WaitForTimeout 2000, Close])"
proof -
  have s: "success (success_result calm STANDARD None (''JANEDO2611020905'', ''agntagnt''))"
    by (rule success_result_success)
  show ?thesis
    using purchasePlan_final_wait [OF calm_standard_run s] s
    by (simp add: calm_standard_run)
qed

text \<open>
  The claim as stated (every successful execution) fails on revision \<open>Part_002\<close>: a
  successful run that waits until \<^verbatim>\<open>networkidle2\<close> and closes the browser with no delay.
\<close>

theorem purchasePlan_part_002_no_delay:
  "purchasePlan Part_002 calm ''BASIC'' ''jane.doe@example.com'' STANDARD None False =
     (Returned (success_result calm STANDARD None (''JANEDO2611020905'', ''agntagnt'')),
      [Launch [''--disable-web-security'', ''--allow-running-insecure-content'',
               ''--ignore-certificate-errors''],
       NewPage, SetDefaultTimeout 60000, OnDialog,
       Goto ''https://panel.example/line'' networkidle2,
       Select ''#package'' ''BASIC'', Type ''#username'' ''JANEDO2611020905'',
       Type ''#password'' ''agntagnt'', Click ''#user-details > ul > li > a'',
       WaitForSelector ''#submit_button'', Click ''#submit_button'',
       WaitForNavigation networkidle2, Close])"
  by (simp add: run_defs calm_def calm_username calm_password calm_no_login)

text \<open>
  Claim C10. The result of \<open>purchasePlan\<close>, and the calls it makes, do not depend on
  \<open>isFreeTrial\<close>: two runs that differ in that flag only are equal.
\<close>

theorem purchasePlan_ignores_isFreeTrial:
  "purchasePlan rv w planId email orderType macAddress' isFreeTrial =
   purchasePlan rv w planId email orderType macAddress' isFreeTrial'"
  by (simp add: purchasePlan_def)

end
